theory Spec2Isabelle
  imports Complex_Main "HOL-Library.AList" "HOL-Library.Sublist" "HOL-Library.List_Lexorder"
    "HOL-Library.Char_ord"
begin

section \<open>Python values, exceptions and built-ins\<close>

text \<open>
  The values the module handles dynamically (configuration, the state loaded from the
  state file, the extra fields of an alert) are JSON-like Python values. A \<^verbatim>\<open>dict\<close> with
  string keys is an association list in insertion order; \<open>map_of\<close> reads it and
  \<open>AList.update\<close> writes it (replacing in place, or appending a new key at the end, as
  a Python dict does). A \<^verbatim>\<open>float\<close> is modelled by the real number it denotes; the one
  float operation of the module, the subtraction in \<^verbatim>\<open>_should_send\<close>, gives the exact
  difference rounded to a float. The non-finite floats are outside the model. A
  character is a code point below 256.
\<close>

datatype pyval =
    VNone
  | VBool bool
  | VInt int
  | VFloat real
  | VStr string
  | VList "pyval list"
  | VDict "(string \<times> pyval) list"

text \<open>
  The exception classes that can arise. \<open>OSError\<close> stands for itself and its subclasses
  other than the three named ones; \<open>HTTPException\<close> stands for the exceptions of
  \<^verbatim>\<open>http.client\<close> that do not derive from \<^verbatim>\<open>OSError\<close>; \<open>Full\<close> is \<^verbatim>\<open>queue.Full\<close>.
  All of them derive from \<^verbatim>\<open>Exception\<close>. A computation that may raise returns
  \<open>exn + 'a\<close>, with \<open>Inl\<close> for the exception.
\<close>

datatype exn =
    AttributeError | KeyError | TypeError | ValueError
  | HTTPError | URLError | TimeoutError | OSError | HTTPException
  | Full

definition bind :: "exn + 'a \<Rightarrow> ('a \<Rightarrow> exn + 'b) \<Rightarrow> exn + 'b" where
  "bind r f = (case r of Inl e \<Rightarrow> Inl e | Inr v \<Rightarrow> f v)"

text \<open>
  What the interpreter supplies and the module does not define: \<^verbatim>\<open>hashlib.sha1\<close> (as
  \<^verbatim>\<open>_sha1\<close> calls it), the parsing of a string by \<^verbatim>\<open>int()\<close> and \<^verbatim>\<open>float()\<close> (\<open>None\<close>
  where they raise \<^verbatim>\<open>ValueError\<close>), the formatting of a value that is not a string
  inside an f-string, \<^verbatim>\<open>os.uname().nodename\<close>, \<^verbatim>\<open>os.getenv\<close>, in which URLs
  \<^verbatim>\<open>urllib.request.Request\<close> finds a scheme (it raises \<^verbatim>\<open>ValueError\<close> for the others),
  and the rounding of float arithmetic: \<open>float_round\<close> gives the float
  nearest to a real number, to which an operation on floats rounds its exact result.
\<close>

record pyenv =
  sha1 :: "string \<Rightarrow> string"
  int_of_str :: "string \<Rightarrow> int option"
  float_of_str :: "string \<Rightarrow> real option"
  format_other :: "pyval \<Rightarrow> string"
  nodename :: string
  getenv :: "string \<Rightarrow> string option"
  request_ok :: "string \<Rightarrow> bool"
  float_round :: "real \<Rightarrow> real"

text \<open>\<^verbatim>\<open>x - y\<close> on floats.\<close>

definition float_sub :: "pyenv \<Rightarrow> real \<Rightarrow> real \<Rightarrow> real" where
  "float_sub env x y = float_round env (x - y)"

text \<open>Truth value testing: \<^verbatim>\<open>bool(v)\<close>, \<^verbatim>\<open>if v\<close>, \<^verbatim>\<open>a or b\<close>.\<close>

fun truthy :: "pyval \<Rightarrow> bool" where
  "truthy VNone = False"
| "truthy (VBool b) = b"
| "truthy (VInt i) = (i \<noteq> 0)"
| "truthy (VFloat x) = (x \<noteq> 0)"
| "truthy (VStr s) = (s \<noteq> [])"
| "truthy (VList xs) = (xs \<noteq> [])"
| "truthy (VDict kvs) = (kvs \<noteq> [])"

definition py_or :: "pyval \<Rightarrow> pyval \<Rightarrow> pyval" where
  "py_or a b = (if truthy a then a else b)"

text \<open>
  \<^verbatim>\<open>obj.get(key, default)\<close>: only a dict has the method; on any other value the
  attribute lookup raises \<^verbatim>\<open>AttributeError\<close>.
\<close>

fun dict_get :: "pyval \<Rightarrow> string \<Rightarrow> pyval \<Rightarrow> exn + pyval" where
  "dict_get (VDict kvs) k d = Inr (case map_of kvs k of Some v \<Rightarrow> v | None \<Rightarrow> d)"
| "dict_get _ k d = Inl AttributeError"

text \<open>\<^verbatim>\<open>obj[key]\<close> with a string key, as an expression.\<close>

fun getitem :: "pyval \<Rightarrow> string \<Rightarrow> exn + pyval" where
  "getitem (VDict kvs) k = (case map_of kvs k of Some v \<Rightarrow> Inr v | None \<Rightarrow> Inl KeyError)"
| "getitem _ k = Inl TypeError"

text \<open>
  \<^verbatim>\<open>obj[key] = v\<close> with a string key: a dict stores it; a list wants an integer index,
  and the other values support no item assignment (\<^verbatim>\<open>TypeError\<close>).
\<close>

fun setitem :: "pyval \<Rightarrow> string \<Rightarrow> pyval \<Rightarrow> exn + pyval" where
  "setitem (VDict kvs) k v = Inr (VDict (AList.update k v kvs))"
| "setitem _ k v = Inl TypeError"

text \<open>
  \<^verbatim>\<open>obj.setdefault(key, default)\<close>: the value under the key (stored first when the key
  is new) and the dict afterwards.
\<close>

fun setdefault :: "pyval \<Rightarrow> string \<Rightarrow> pyval \<Rightarrow> exn + (pyval \<times> pyval)" where
  "setdefault (VDict kvs) k d =
     (case map_of kvs k of
        Some v \<Rightarrow> Inr (v, VDict kvs)
      | None \<Rightarrow> Inr (d, VDict (AList.update k d kvs)))"
| "setdefault _ k d = Inl AttributeError"

text \<open>
  \<^verbatim>\<open>s in obj\<close> for a string \<open>s\<close>: a key of a dict, an element of a list, a substring of a
  string; the other values are not iterable.
\<close>

fun py_in :: "string \<Rightarrow> pyval \<Rightarrow> exn + bool" where
  "py_in s (VDict kvs) = Inr (s \<in> set (map fst kvs))"
| "py_in s (VList xs) = Inr (VStr s \<in> set xs)"
| "py_in s (VStr t) = Inr (sublist s t)"
| "py_in s _ = Inl TypeError"

text \<open>
  \<^verbatim>\<open>int(v)\<close> and \<^verbatim>\<open>float(v)\<close>. \<^verbatim>\<open>bool\<close> is a subclass of \<^verbatim>\<open>int\<close>; \<^verbatim>\<open>int\<close> of a float
  truncates towards zero; \<^verbatim>\<open>None\<close>, lists and dicts raise \<^verbatim>\<open>TypeError\<close>.
\<close>

fun py_int :: "pyenv \<Rightarrow> pyval \<Rightarrow> exn + int" where
  "py_int env (VBool b) = Inr (if b then 1 else 0)"
| "py_int env (VInt i) = Inr i"
| "py_int env (VFloat x) = Inr (if 0 \<le> x then \<lfloor>x\<rfloor> else \<lceil>x\<rceil>)"
| "py_int env (VStr s) = (case int_of_str env s of Some i \<Rightarrow> Inr i | None \<Rightarrow> Inl ValueError)"
| "py_int env _ = Inl TypeError"

fun py_float :: "pyenv \<Rightarrow> pyval \<Rightarrow> exn + real" where
  "py_float env (VBool b) = Inr (if b then 1 else 0)"
| "py_float env (VInt i) = Inr (real_of_int i)"
| "py_float env (VFloat x) = Inr x"
| "py_float env (VStr s) = (case float_of_str env s of Some x \<Rightarrow> Inr x | None \<Rightarrow> Inl ValueError)"
| "py_float env _ = Inl TypeError"

text \<open>The value of \<^verbatim>\<open>{v}\<close> in an f-string: a string stands for itself.\<close>

definition py_format :: "pyenv \<Rightarrow> pyval \<Rightarrow> string" where
  "py_format env v = (case v of VStr s \<Rightarrow> s | _ \<Rightarrow> format_other env v)"

text \<open>
  \<^verbatim>\<open>s.lower()\<close> on code points below 256: the letters A to Z, and the upper-case
  letters of Latin-1 (192 to 222 but the multiplication sign 215), map to the code point
  32 above.
\<close>

definition lower_char :: "char \<Rightarrow> char" where
  "lower_char c =
     (let n = (of_char c :: nat)
      in if (65 \<le> n \<and> n \<le> 90) \<or> (192 \<le> n \<and> n \<le> 222 \<and> n \<noteq> 215) then char_of (n + 32) else c)"

definition lower :: "string \<Rightarrow> string" where
  "lower s = map lower_char s"

text \<open>
  \<^verbatim>\<open>s.strip()\<close>: the white space of code points below 256 is 9 to 13, 28 to 32, 133
  and 160.
\<close>

definition is_space :: "char \<Rightarrow> bool" where
  "is_space c =
     (let n = (of_char c :: nat)
      in (9 \<le> n \<and> n \<le> 13) \<or> (28 \<le> n \<and> n \<le> 32) \<or> n = 133 \<or> n = 160)"

definition strip :: "string \<Rightarrow> string" where
  "strip s = rev (dropWhile is_space (rev (dropWhile is_space s)))"

text \<open>\<^verbatim>\<open>s.split(",")\<close> and \<^verbatim>\<open>sep.join(xs)\<close>.\<close>

fun split_on :: "char \<Rightarrow> string \<Rightarrow> string list" where
  "split_on sep [] = [[]]"
| "split_on sep (c # cs) =
     (if c = sep then [] # split_on sep cs
      else (case split_on sep cs of p # ps \<Rightarrow> (c # p) # ps | [] \<Rightarrow> [[c]]))"

fun join :: "string \<Rightarrow> string list \<Rightarrow> string" where
  "join sep [] = []"
| "join sep [x] = x"
| "join sep (x # y # ys) = x @ sep @ join sep (y # ys)"

text \<open>
  A list comprehension whose element expression may raise: the first exception ends it.
\<close>

fun collect :: "('a \<Rightarrow> exn + 'b) \<Rightarrow> 'a list \<Rightarrow> exn + 'b list" where
  "collect f [] = Inr []"
| "collect f (x # xs) = bind (f x) (\<lambda>y. bind (collect f xs) (\<lambda>ys. Inr (y # ys)))"

section \<open>Alerts and the manager\<close>

text \<open>
  The dataclass \<^verbatim>\<open>Alert\<close>. The fields \<^verbatim>\<open>text\<close> and \<^verbatim>\<open>fields\<close> are named \<open>body_text\<close> and
  \<open>alert_fields\<close> here. \<^verbatim>\<open>emit\<close> builds \<^verbatim>\<open>fields\<close> from its keyword
  arguments, so it is a dict with string keys.
\<close>

record alert =
  event :: string
  level :: string
  title :: string
  body_text :: string
  alert_fields :: "(string \<times> pyval) list"
  ts :: real

text \<open>The two \<^verbatim>\<open>Backend\<close> subclasses, with the attributes their constructors store.\<close>

datatype backend =
    TelegramBackend (token: string) (chat_ids: "int list") (parse_mode: pyval)
      (disable_web_preview: bool) (timeout_s: int)
  | DiscordWebhookBackend (webhook_url: string) (timeout_s: int)

text \<open>
  The attributes of an \<^verbatim>\<open>AlertManager\<close>: \<open>cfg\<close> is the \<^verbatim>\<open>alerts\<close> section of the
  configuration; \<open>q\<close> is the content of the bounded queue
  \<^verbatim>\<open>self._q\<close> (oldest first) and \<open>max_queue\<close> its \<^verbatim>\<open>maxsize\<close>; \<open>state\<close> is \<^verbatim>\<open>self._state\<close>.
  The logging callback is \<open>None\<close> or a function that returns (\<open>None\<close>) or raises.
\<close>

record manager =
  cfg :: pyval
  enabled :: bool
  cooldown_default :: int
  cooldowns :: pyval
  dedupe_seconds :: int
  include_host :: bool
  include_identity :: bool
  max_queue :: int
  q :: "alert list"
  state :: pyval
  backends :: "backend list"
  log_fn :: "(string \<Rightarrow> string \<Rightarrow> exn option) option"

text \<open>
  \<^verbatim>\<open>
  def _log(self, level, msg):
      if self.log_fn:
          try: self.log_fn(level, msg)
          except Exception: pass
  \<close>
  The calls of the callback are recorded in order; what the callback does with them,
  and whether it raises, changes nothing else.
\<close>

definition log_msg :: "manager \<Rightarrow> string \<Rightarrow> string \<Rightarrow> (string \<times> string) list \<Rightarrow> (string \<times> string) list" where
  "log_msg m lvl msg logged =
     (case log_fn m of
        None \<Rightarrow> logged
      | Some f \<Rightarrow> (case f lvl msg of None \<Rightarrow> logged @ [(lvl, msg)] | Some e \<Rightarrow> logged @ [(lvl, msg)]))"

section \<open>Ingestion\<close>




section \<open>Rendering\<close>

text \<open>The test \<^verbatim>\<open>"password" in k.lower() or "token" in k.lower()\<close>.\<close>

definition redacted :: "string \<Rightarrow> bool" where
  "redacted k = (sublist ''password'' (lower k) \<or> sublist ''token'' (lower k))"

text \<open>
  The loop that fills \<^verbatim>\<open>safe\<close>:
  \<^verbatim>\<open>
  for k, v in (a.fields or {}).items():
      if v is None: continue
      if "password" in k.lower() or "token" in k.lower(): continue
      safe[k] = v
  \<close>
\<close>

fun safe_loop :: "(string \<times> pyval) list \<Rightarrow> (string \<times> pyval) list \<Rightarrow> (string \<times> pyval) list" where
  "safe_loop [] safe = safe"
| "safe_loop ((k, v) # items) safe =
     (if v = VNone then safe_loop items safe
      else if redacted k then safe_loop items safe
      else safe_loop items (AList.update k v safe))"

text \<open>\<^verbatim>\<open>f"{k}={safe[k]}"\<close>, where the subscript raises \<^verbatim>\<open>KeyError\<close> on a missing key.\<close>

definition format_field :: "pyenv \<Rightarrow> (string \<times> pyval) list \<Rightarrow> string \<Rightarrow> exn + string" where
  "format_field env safe k =
     (case map_of safe k of None \<Rightarrow> Inl KeyError | Some v \<Rightarrow> Inr (k @ ''='' @ py_format env v))"

text \<open>
  \<^verbatim>\<open>'[' + identity + ']' if identity else ''\<close>: the identity comes from the alert's fields
  and may be any value; \<^verbatim>\<open>str + x\<close> raises \<^verbatim>\<open>TypeError\<close> unless \<open>x\<close> is a string.
\<close>

definition bracket :: "pyval \<Rightarrow> exn + string" where
  "bracket x =
     (if truthy x then (case x of VStr s \<Rightarrow> Inr (''['' @ s @ '']'') | _ \<Rightarrow> Inl TypeError)
      else Inr [])"

text \<open>
  \<^verbatim>\<open>
  def _render(self, a):
      host = os.uname().nodename if self.include_host else ""
      identity = a.fields.get("identity", "") if self.include_identity else ""
      head = f"[RustWatchdog]{'[' + identity + ']' if identity else ''}{'[' + host + ']' if host else ''} {a.level}: {a.title}"
      lines = [head, a.text]
      safe = {} ... (the loop above)
      if safe:
          lines.append("fields: " + " ".join(f"{k}={safe[k]}" for k in sorted(safe.keys())))
      return "\n".join(lines)
  \<close>
\<close>

definition fields_line :: "pyenv \<Rightarrow> (string \<times> pyval) list \<Rightarrow> exn + string" where
  "fields_line env safe =
     bind (collect (format_field env safe) (sort (map fst safe)))
       (\<lambda>parts. Inr (''fields: '' @ join '' '' parts))"

definition head_line :: "pyenv \<Rightarrow> manager \<Rightarrow> alert \<Rightarrow> exn + string" where
  "head_line env m a =
     (let host = (if include_host m then nodename env else []);
          identity = (if include_identity m
                      then (case map_of (alert_fields a) ''identity'' of Some v \<Rightarrow> v | None \<Rightarrow> VStr [])
                      else VStr [])
      in bind (bracket identity) (\<lambda>ib.
         bind (bracket (VStr host)) (\<lambda>hb.
           Inr (''[RustWatchdog]'' @ ib @ hb @ '' '' @ level a @ '': '' @ title a))))"

definition render :: "pyenv \<Rightarrow> manager \<Rightarrow> alert \<Rightarrow> exn + string" where
  "render env m a =
     bind (head_line env m a) (\<lambda>head.
       let safe = safe_loop (alert_fields a) []
       in if safe \<noteq> [] then
            bind (fields_line env safe) (\<lambda>fl. Inr (join [CHR 0x0A] [head, body_text a, fl]))
          else Inr (join [CHR 0x0A] [head, body_text a]))"

section \<open>Message chunking\<close>

text \<open>
  The module constant \<^verbatim>\<open>TELEGRAM_LIMIT = 4096\<close>.
\<close>

definition TELEGRAM_LIMIT :: nat where
  "TELEGRAM_LIMIT = 4096"

text \<open>
  Python's \<^verbatim>\<open>range(start, stop, step)\<close> for a positive step, as the list of its
  elements. (A step of zero raises in Python; the only caller passes the constant 4096.)
\<close>

function py_range :: "nat \<Rightarrow> nat \<Rightarrow> nat \<Rightarrow> nat list" where
  "py_range i n step = (if i < n \<and> 0 < step then i # py_range (i + step) n step else [])"
  by pat_completeness auto
termination
  by (relation "measure (\<lambda>(i, n, step). n - i)") auto

declare py_range.simps [simp del]

text \<open>
  \<^verbatim>\<open>
  def _split_telegram(msg: str) -> List[str]:
      if len(msg) <= TELEGRAM_LIMIT:
          return [msg]
      return [msg[i:i + TELEGRAM_LIMIT] for i in range(0, len(msg), TELEGRAM_LIMIT)]
  \<close>
  A Python string is a sequence of code points and \<^verbatim>\<open>len\<close> counts them; the function
  only slices, so the model is polymorphic in the type of characters. The slice
  \<^verbatim>\<open>msg[i:j]\<close> clamps at the end of the string, as \<open>take\<close> after \<open>drop\<close> does.
\<close>

definition split_telegram :: "'a list \<Rightarrow> 'a list list" where
  "split_telegram msg =
     (if length msg \<le> TELEGRAM_LIMIT then [msg]
      else map (\<lambda>i. take TELEGRAM_LIMIT (drop i msg)) (py_range 0 (length msg) TELEGRAM_LIMIT))"

section \<open>The suppression state\<close>

text \<open>
  The state the constructor starts from, and \<^verbatim>\<open>_load_state\<close> falls back to:
  \<^verbatim>\<open>{"last_event": {}, "last_key": {}, "suppressed": {}}\<close>.
\<close>

definition initial_state :: pyval where
  "initial_state = VDict [(''last_event'', VDict []), (''last_key'', VDict []), (''suppressed'', VDict [])]"

section \<open>The suppression decision\<close>

text \<open>
  \<^verbatim>\<open>
  def _cooldown_for(self, event):
      v = self.cooldowns.get(event)
      if v is None:
          return self.cooldown_default
      try:
          return int(v)
      except Exception:
          return self.cooldown_default
  \<close>
\<close>

definition cooldown_for :: "pyenv \<Rightarrow> manager \<Rightarrow> string \<Rightarrow> exn + int" where
  "cooldown_for env m ev =
     bind (dict_get (cooldowns m) ev VNone) (\<lambda>v.
       if v = VNone then Inr (cooldown_default m)
       else (case py_int env v of Inr i \<Rightarrow> Inr i | Inl e \<Rightarrow> Inr (cooldown_default m)))"

text \<open>The key \<^verbatim>\<open>f"{a.event}:{_sha1(rendered)}"\<close>.\<close>

definition dedupe_key :: "pyenv \<Rightarrow> alert \<Rightarrow> string \<Rightarrow> string" where
  "dedupe_key env a rendered = event a @ '':'' @ sha1 env rendered"

text \<open>
  The statement
  \<^verbatim>\<open>self._state["suppressed"][a.event] = int(self._state.get("suppressed", {}).get(a.event, 0) or 0) + 1\<close>:
  the right-hand side first, then the target \<^verbatim>\<open>self._state["suppressed"]\<close>, then the
  store into it. The inner dict is changed in place, which the model writes back under
  the same key.
\<close>

definition bump_suppressed :: "pyenv \<Rightarrow> pyval \<Rightarrow> string \<Rightarrow> exn + pyval" where
  "bump_suppressed env st ev =
     bind (dict_get st ''suppressed'' (VDict [])) (\<lambda>sup.
     bind (dict_get sup ev (VInt 0)) (\<lambda>c.
     bind (py_int env (py_or c (VInt 0))) (\<lambda>n.
     bind (getitem st ''suppressed'') (\<lambda>target.
     bind (setitem target ev (VInt (n + 1))) (\<lambda>target'.
     setitem st ''suppressed'' target')))))"

text \<open>
  \<^verbatim>\<open>
  def _should_send(self, a, rendered):
      now = _now()
      key = f"{a.event}:{_sha1(rendered)}"
      with self._state_lock:
          last_evt = float(self._state.get("last_event", {}).get(a.event, 0) or 0)
          last_key = float(self._state.get("last_key", {}).get(key, 0) or 0)
          cd = self._cooldown_for(a.event)
          if (now - last_evt) < cd:
              (count the suppression); return False
          if (now - last_key) < self.dedupe_seconds:
              (count the suppression); return False
          return True
  \<close>
  The subtractions are float subtractions; the comparison of a float with an integer
  is exact. The result is the answer and the manager with its state afterwards.
\<close>

definition should_send :: "pyenv \<Rightarrow> manager \<Rightarrow> alert \<Rightarrow> string \<Rightarrow> real \<Rightarrow> exn + (bool \<times> manager)" where
  "should_send env m a rendered now =
     (let key = dedupe_key env a rendered in
      bind (dict_get (state m) ''last_event'' (VDict [])) (\<lambda>le.
      bind (dict_get le (event a) (VInt 0)) (\<lambda>x.
      bind (py_float env (py_or x (VInt 0))) (\<lambda>last_evt.
      bind (dict_get (state m) ''last_key'' (VDict [])) (\<lambda>lk.
      bind (dict_get lk key (VInt 0)) (\<lambda>y.
      bind (py_float env (py_or y (VInt 0))) (\<lambda>last_key.
      bind (cooldown_for env m (event a)) (\<lambda>cd.
        if float_sub env now last_evt < real_of_int cd then
          bind (bump_suppressed env (state m) (event a)) (\<lambda>st. Inr (False, m\<lparr>state := st\<rparr>))
        else if float_sub env now last_key < real_of_int (dedupe_seconds m) then
          bind (bump_suppressed env (state m) (event a)) (\<lambda>st. Inr (False, m\<lparr>state := st\<rparr>))
        else Inr (True, m)))))))))"

section \<open>Marking an alert as sent\<close>

text \<open>\<^verbatim>\<open>self._state.setdefault(name, {})[k] = now\<close>.\<close>

definition store_timestamp :: "pyval \<Rightarrow> string \<Rightarrow> string \<Rightarrow> real \<Rightarrow> exn + pyval" where
  "store_timestamp st name k now =
     bind (setdefault st name (VDict [])) (\<lambda>(d, st1).
     bind (setitem d k (VFloat now)) (\<lambda>d'.
     setitem st1 name d'))"

text \<open>
  \<^verbatim>\<open>
  if a.event in self._state.get("suppressed", {}):
      self._state["suppressed"][a.event] = 0
  \<close>
\<close>

definition reset_suppressed :: "pyval \<Rightarrow> string \<Rightarrow> exn + pyval" where
  "reset_suppressed st ev =
     bind (dict_get st ''suppressed'' (VDict [])) (\<lambda>sup.
     bind (py_in ev sup) (\<lambda>found.
       if found then
         bind (getitem st ''suppressed'') (\<lambda>target.
         bind (setitem target ev (VInt 0)) (\<lambda>target'.
         setitem st ''suppressed'' target'))
       else Inr st))"

text \<open>
  \<^verbatim>\<open>_save_state\<close> writes the state to a temporary file and renames it over the state
  file, inside \<^verbatim>\<open>try: ... except Exception: pass\<close>. The state file is modelled by the
  value it holds (\<open>None\<close> when there is none); \<open>write_ok\<close> says whether the file
  operations of this call go through. When one of them raises the file is as before.
\<close>

definition save_state :: "bool \<Rightarrow> pyval \<Rightarrow> pyval option \<Rightarrow> pyval option" where
  "save_state write_ok st disk = (if write_ok then Some st else disk)"

text \<open>
  \<^verbatim>\<open>
  def _mark_sent(self, a, rendered):
      now = _now()
      key = f"{a.event}:{_sha1(rendered)}"
      with self._state_lock:
          self._state.setdefault("last_event", {})[a.event] = now
          self._state.setdefault("last_key", {})[key] = now
          if a.event in self._state.get("suppressed", {}):
              self._state["suppressed"][a.event] = 0
      self._save_state()
  \<close>
\<close>

definition mark_state :: "pyenv \<Rightarrow> pyval \<Rightarrow> alert \<Rightarrow> string \<Rightarrow> real \<Rightarrow> exn + pyval" where
  "mark_state env st a rendered now =
     bind (store_timestamp st ''last_event'' (event a) now) (\<lambda>st1.
     bind (store_timestamp st1 ''last_key'' (dedupe_key env a rendered) now) (\<lambda>st2.
     reset_suppressed st2 (event a)))"

definition mark_sent ::
  "pyenv \<Rightarrow> manager \<Rightarrow> alert \<Rightarrow> string \<Rightarrow> real \<Rightarrow> bool \<Rightarrow> pyval option \<Rightarrow> exn + (manager \<times> pyval option)" where
  "mark_sent env m a rendered now write_ok disk =
     bind (mark_state env (state m) a rendered now) (\<lambda>st.
       Inr (m\<lparr>state := st\<rparr>, save_state write_ok st disk))"

section \<open>Delivery channels\<close>

text \<open>
  One transport call: the URL and the payload of the \<^verbatim>\<open>Request\<close> (the dict given to
  \<^verbatim>\<open>json.dumps\<close>) and the timeout given to \<^verbatim>\<open>urlopen\<close>. The network is outside the
  program: given the calls made so far and the next call, it says whether
  \<^verbatim>\<open>urlopen(...)\<close> and \<^verbatim>\<open>resp.read()\<close> return (\<open>None\<close>) or which exception they raise.
\<close>

record http_call =
  url :: string
  payload :: "(string \<times> pyval) list"
  timeout :: int

type_synonym network = "http_call list \<Rightarrow> http_call \<Rightarrow> exn option"

text \<open>
  The clause \<^verbatim>\<open>except (HTTPError, URLError, TimeoutError, OSError)\<close> of both channels.
\<close>

definition caught :: "exn \<Rightarrow> bool" where
  "caught e = (e = HTTPError \<or> e = URLError \<or> e = TimeoutError \<or> e = OSError)"

text \<open>
  What both channels do for one request:
  \<^verbatim>\<open>
  req = Request(url, data=data, headers=...)
  try:
      with urlopen(req, timeout=self.timeout_s) as resp:
          _ = resp.read()
      (success)
  except (HTTPError, URLError, TimeoutError, OSError):
      (failure)
  \<close>
  \<^verbatim>\<open>Request\<close> is built outside the \<^verbatim>\<open>try\<close>; it raises \<^verbatim>\<open>ValueError\<close> for a URL in
  which it finds no scheme, and it finds one in every URL that begins with \<^verbatim>\<open>https:\<close>
  (the scheme is what precedes the first colon, when that is neither empty nor holds a
  slash). The result is \<open>Inr True\<close> on success, \<open>Inr False\<close> on a failure the clause
  catches, and the exception otherwise, with the calls made so far.
\<close>

definition request_accepts :: "pyenv \<Rightarrow> string \<Rightarrow> bool" where
  "request_accepts env u = (prefix ''https:'' u \<or> request_ok env u)"

definition attempt ::
  "pyenv \<Rightarrow> network \<Rightarrow> string \<Rightarrow> (string \<times> pyval) list \<Rightarrow> int \<Rightarrow> http_call list
   \<Rightarrow> (exn + bool) \<times> http_call list" where
  "attempt env net u p t calls =
     (if \<not> request_accepts env u then (Inl ValueError, calls)
      else
        let c = \<lparr>url = u, payload = p, timeout = t\<rparr>
        in (case net calls c of
              None \<Rightarrow> (Inr True, calls @ [c])
            | Some e \<Rightarrow> if caught e then (Inr False, calls @ [c]) else (Inl e, calls @ [c])))"

definition telegram_url :: "string \<Rightarrow> string" where
  "telegram_url tok = ''https://api.telegram.org/bot'' @ tok @ ''/sendMessage''"

definition telegram_payload :: "backend \<Rightarrow> int \<Rightarrow> string \<Rightarrow> (string \<times> pyval) list" where
  "telegram_payload b chat_id chunk =
     [(''chat_id'', VInt chat_id),
      (''text'', VStr chunk),
      (''disable_web_page_preview'', VBool (disable_web_preview b)),
      (''parse_mode'', parse_mode b)]"

text \<open>
  \<^verbatim>\<open>
  def send(self, alert, rendered):          # TelegramBackend
      ok_all = True
      url = f"https://api.telegram.org/bot{self.token}/sendMessage"
      chunks = _split_telegram(rendered)
      for chat_id in self.chat_ids:
          for chunk in chunks:
              (one request; on a caught failure: ok_all = False)
      return ok_all
  \<close>
  The inner and the outer loop, with \<open>ok_all\<close> and the calls made as loop state.
\<close>

fun send_chunks ::
  "pyenv \<Rightarrow> network \<Rightarrow> backend \<Rightarrow> int \<Rightarrow> string list \<Rightarrow> bool \<Rightarrow> http_call list
   \<Rightarrow> (exn + bool) \<times> http_call list" where
  "send_chunks env net b chat_id [] ok_all calls = (Inr ok_all, calls)"
| "send_chunks env net b chat_id (chunk # chunks) ok_all calls =
     (case attempt env net (telegram_url (token b)) (telegram_payload b chat_id chunk) (timeout_s b) calls of
        (Inl e, calls') \<Rightarrow> (Inl e, calls')
      | (Inr ok, calls') \<Rightarrow>
          send_chunks env net b chat_id chunks (if ok then ok_all else False) calls')"

fun send_chats ::
  "pyenv \<Rightarrow> network \<Rightarrow> backend \<Rightarrow> int list \<Rightarrow> string list \<Rightarrow> bool \<Rightarrow> http_call list
   \<Rightarrow> (exn + bool) \<times> http_call list" where
  "send_chats env net b [] chunks ok_all calls = (Inr ok_all, calls)"
| "send_chats env net b (chat_id # ids) chunks ok_all calls =
     (case send_chunks env net b chat_id chunks ok_all calls of
        (Inl e, calls') \<Rightarrow> (Inl e, calls')
      | (Inr ok, calls') \<Rightarrow> send_chats env net b ids chunks ok calls')"

text \<open>
  \<^verbatim>\<open>Backend.send\<close> of the two channels. The Discord channel makes one request with the
  payload \<^verbatim>\<open>{"content": rendered}\<close> and returns whether it succeeded. Neither looks at
  the alert.
\<close>

fun send ::
  "pyenv \<Rightarrow> network \<Rightarrow> backend \<Rightarrow> alert \<Rightarrow> string \<Rightarrow> http_call list
   \<Rightarrow> (exn + bool) \<times> http_call list" where
  "send env net (TelegramBackend tok ids pm dwp t) a rendered calls =
     send_chats env net (TelegramBackend tok ids pm dwp t) ids (split_telegram rendered) True calls"
| "send env net (DiscordWebhookBackend u t) a rendered calls =
     attempt env net u [(''content'', VStr rendered)] t calls"

section \<open>The worker\<close>

text \<open>
  The fan-out of \<^verbatim>\<open>_run\<close>:
  \<^verbatim>\<open>
  ok_any = False
  for b in self.backends:
      try:
          if b.send(a, rendered):
              ok_any = True
      except Exception:
          pass
  \<close>
\<close>

fun deliver ::
  "pyenv \<Rightarrow> network \<Rightarrow> backend list \<Rightarrow> alert \<Rightarrow> string \<Rightarrow> bool \<Rightarrow> http_call list
   \<Rightarrow> bool \<times> http_call list" where
  "deliver env net [] a rendered ok_any calls = (ok_any, calls)"
| "deliver env net (b # bs) a rendered ok_any calls =
     (case send env net b a rendered calls of
        (Inr ok, calls') \<Rightarrow> deliver env net bs a rendered (if ok then True else ok_any) calls'
      | (Inl e, calls') \<Rightarrow> deliver env net bs a rendered ok_any calls')"

text \<open>
  What the worker touches outside the manager: the transport calls made so far and the
  state file.
\<close>

record world =
  requests :: "http_call list"
  disk :: "pyval option"

text \<open>
  One iteration of \<^verbatim>\<open>_run\<close> after an alert was taken from the queue:
  \<^verbatim>\<open>
  rendered = self._render(a)
  if not self._should_send(a, rendered):
      continue
  (the fan-out above)
  if ok_any:
      self._mark_sent(a, rendered)
  \<close>
  \<open>now1\<close> and \<open>now2\<close> are the clock reads of \<^verbatim>\<open>_should_send\<close> and \<^verbatim>\<open>_mark_sent\<close>. No
  \<^verbatim>\<open>try\<close> encloses \<^verbatim>\<open>_render\<close>, \<^verbatim>\<open>_should_send\<close> or \<^verbatim>\<open>_mark_sent\<close>: an exception of theirs
  leaves the iteration, and \<^verbatim>\<open>_run\<close> with it.
\<close>

definition process ::
  "pyenv \<Rightarrow> network \<Rightarrow> alert \<Rightarrow> real \<Rightarrow> real \<Rightarrow> bool \<Rightarrow> manager \<times> world \<Rightarrow> exn + (manager \<times> world)" where
  "process env net a now1 now2 write_ok mw =
     (let m = fst mw; w = snd mw in
      bind (render env m a) (\<lambda>rendered.
      bind (should_send env m a rendered now1) (\<lambda>(allowed, m1).
        if \<not> allowed then Inr (m1, w)
        else
          let (ok_any, calls) = deliver env net (backends m1) a rendered False (requests w)
          in if ok_any then
               bind (mark_sent env m1 a rendered now2 write_ok (disk w)) (\<lambda>(m2, d).
                 Inr (m2, w\<lparr>requests := calls, disk := d\<rparr>))
             else Inr (m1, w\<lparr>requests := calls\<rparr>))))"

text \<open>
  The loop of \<^verbatim>\<open>_run\<close> over the alerts that are queued, one entry of \<open>ticks\<close> (the two
  clock reads and the outcome of the write) for each iteration that takes an alert. An
  exception of an iteration ends the loop: the thread is gone and the alerts behind it
  stay in the queue.
\<close>

fun run ::
  "pyenv \<Rightarrow> network \<Rightarrow> (real \<times> real \<times> bool) list \<Rightarrow> manager \<times> world \<Rightarrow> exn + (manager \<times> world)" where
  "run env net [] mw = Inr mw"
| "run env net ((now1, now2, write_ok) # ticks) (m, w) =
     (case q m of
        [] \<Rightarrow> Inr (m, w)
      | a # rest \<Rightarrow>
          bind (process env net a now1 now2 write_ok (m\<lparr>q := rest\<rparr>, w)) (run env net ticks))"

section \<open>Construction\<close>

text \<open>
  \<^verbatim>\<open>os.getenv(name, default)\<close>: the name must be a string (\<^verbatim>\<open>TypeError\<close> otherwise).
\<close>

definition os_getenv :: "pyenv \<Rightarrow> pyval \<Rightarrow> string \<Rightarrow> exn + string" where
  "os_getenv env name dflt =
     (case name of
        VStr s \<Rightarrow> Inr (case getenv env s of Some v \<Rightarrow> v | None \<Rightarrow> dflt)
      | _ \<Rightarrow> Inl TypeError)"

text \<open>
  Iteration (\<^verbatim>\<open>for b in v\<close>): the elements of a list, the characters of a string, the
  keys of a dict; the other values are not iterable.
\<close>

fun py_iter :: "pyval \<Rightarrow> exn + pyval list" where
  "py_iter (VList xs) = Inr xs"
| "py_iter (VStr s) = Inr (map (\<lambda>c. VStr [c]) s)"
| "py_iter (VDict kvs) = Inr (map (\<lambda>kv. VStr (fst kv)) kvs)"
| "py_iter _ = Inl TypeError"

text \<open>
  \<^verbatim>\<open>
  backends = self.cfg.get("backends", []) or []
  backends = [b.strip().lower() for b in backends if isinstance(b, str)]
  \<close>
\<close>

fun strs :: "pyval list \<Rightarrow> string list" where
  "strs [] = []"
| "strs (VStr s # xs) = s # strs xs"
| "strs (_ # xs) = strs xs"

definition backend_names :: "pyval \<Rightarrow> exn + string list" where
  "backend_names acfg =
     bind (dict_get acfg ''backends'' (VList [])) (\<lambda>v.
     bind (py_iter (py_or v (VList []))) (\<lambda>xs.
       Inr (map (\<lambda>b. lower (strip b)) (strs xs))))"

text \<open>
  The recipients:
  \<^verbatim>\<open>
  ids = []
  if isinstance(chat_ids, list):
      ids = [int(x) for x in chat_ids]
  elif isinstance(chat_ids, (str, int)):
      if isinstance(chat_ids, str) and "," in chat_ids:
          ids = [int(x.strip()) for x in chat_ids.split(",") if x.strip()]
      else:
          ids = [int(chat_ids)]
  \<close>
  (\<^verbatim>\<open>bool\<close> is a subclass of \<^verbatim>\<open>int\<close>.)
\<close>

fun parse_chat_ids :: "pyenv \<Rightarrow> pyval \<Rightarrow> exn + int list" where
  "parse_chat_ids env (VList xs) = collect (py_int env) xs"
| "parse_chat_ids env (VStr s) =
     (if CHR '','' \<in> set s then
        collect (\<lambda>x. py_int env (VStr (strip x))) (filter (\<lambda>x. strip x \<noteq> []) (split_on (CHR '','') s))
      else bind (py_int env (VStr s)) (\<lambda>i. Inr [i]))"
| "parse_chat_ids env (VInt i) = bind (py_int env (VInt i)) (\<lambda>i. Inr [i])"
| "parse_chat_ids env (VBool b) = bind (py_int env (VBool b)) (\<lambda>i. Inr [i])"
| "parse_chat_ids env _ = Inr []"

text \<open>
  The Telegram part of \<^verbatim>\<open>_init_backends\<close>, as the backends it appends:
  \<^verbatim>\<open>
  tcfg = self.cfg.get("telegram", {}) or {}
  token = os.getenv(tcfg.get("token_env", "RUST_WD_TELEGRAM_TOKEN"), "")
  chat_ids = tcfg.get("chat_ids") or tcfg.get("chat_id")
  (the recipients, above)
  if token and ids:
      self.backends.append(TelegramBackend(token=token, chat_ids=ids,
          parse_mode=tcfg.get("parse_mode", "HTML"),
          disable_web_preview=bool(tcfg.get("disable_web_preview", True)),
          timeout_s=int(tcfg.get("timeout_s", 8))))
  \<close>
\<close>

definition init_telegram :: "pyenv \<Rightarrow> pyval \<Rightarrow> exn + backend list" where
  "init_telegram env acfg =
     bind (dict_get acfg ''telegram'' (VDict [])) (\<lambda>t0.
     let tcfg = py_or t0 (VDict []) in
     bind (dict_get tcfg ''token_env'' (VStr ''RUST_WD_TELEGRAM_TOKEN'')) (\<lambda>name.
     bind (os_getenv env name []) (\<lambda>tok.
     bind (dict_get tcfg ''chat_ids'' VNone) (\<lambda>c1.
     bind (if truthy c1 then Inr c1 else dict_get tcfg ''chat_id'' VNone) (\<lambda>chat_ids.
     bind (parse_chat_ids env chat_ids) (\<lambda>ids.
       if tok \<noteq> [] \<and> ids \<noteq> [] then
         bind (dict_get tcfg ''parse_mode'' (VStr ''HTML'')) (\<lambda>pm.
         bind (dict_get tcfg ''disable_web_preview'' (VBool True)) (\<lambda>dwp.
         bind (dict_get tcfg ''timeout_s'' (VInt 8)) (\<lambda>t.
         bind (py_int env t) (\<lambda>ti.
           Inr [TelegramBackend tok ids pm (truthy dwp) ti]))))
       else Inr []))))))"

text \<open>
  The Discord part:
  \<^verbatim>\<open>
  dcfg = self.cfg.get("discord", {}) or {}
  webhook = os.getenv(dcfg.get("webhook_env", "RUST_WD_DISCORD_WEBHOOK"), "")
  if webhook:
      self.backends.append(DiscordWebhookBackend(webhook_url=webhook,
          timeout_s=int(dcfg.get("timeout_s", 8))))
  \<close>
\<close>

definition init_discord :: "pyenv \<Rightarrow> pyval \<Rightarrow> exn + backend list" where
  "init_discord env acfg =
     bind (dict_get acfg ''discord'' (VDict [])) (\<lambda>d0.
     let dcfg = py_or d0 (VDict []) in
     bind (dict_get dcfg ''webhook_env'' (VStr ''RUST_WD_DISCORD_WEBHOOK'')) (\<lambda>name.
     bind (os_getenv env name []) (\<lambda>webhook.
       if webhook \<noteq> [] then
         bind (dict_get dcfg ''timeout_s'' (VInt 8)) (\<lambda>t.
         bind (py_int env t) (\<lambda>ti.
           Inr [DiscordWebhookBackend webhook ti]))
       else Inr [])))"

text \<open>
  \<^verbatim>\<open>
  def _init_backends(self):
      (the names, above)
      if "telegram" in backends: (the Telegram part)
      if "discord" in backends: (the Discord part)
      if not self.backends:
          self._log("WARN", "ALERTS: enabled, but no usable backends configured -> alerts disabled")
          self.enabled = False
  \<close>
  The result is the manager and the calls of the logging callback.
\<close>

definition init_backends ::
  "pyenv \<Rightarrow> manager \<Rightarrow> (string \<times> string) list \<Rightarrow> exn + (manager \<times> (string \<times> string) list)" where
  "init_backends env m logged =
     bind (backend_names (cfg m)) (\<lambda>names.
     bind (if ''telegram'' \<in> set names then init_telegram env (cfg m) else Inr []) (\<lambda>tb.
     bind (if ''discord'' \<in> set names then init_discord env (cfg m) else Inr []) (\<lambda>db.
       let m1 = m\<lparr>backends := backends m @ tb @ db\<rparr>
       in if backends m1 = [] then
            Inr (m1\<lparr>enabled := False\<rparr>,
                 log_msg m1 ''WARN''
                   ''ALERTS: enabled, but no usable backends configured -> alerts disabled'' logged)
          else Inr (m1, logged))))"

text \<open>
  \<^verbatim>\<open>_load_state\<close> reads the state file inside \<^verbatim>\<open>try: ... except Exception\<close>. \<open>file\<close>
  is what the file operations give: an exception, no file, or the JSON value in it.
\<close>

definition load_state :: "exn + pyval option \<Rightarrow> pyval" where
  "load_state file =
     (case file of
        Inr (Some v) \<Rightarrow> v
      | Inr None \<Rightarrow> initial_state
      | Inl e \<Rightarrow> initial_state)"

text \<open>
  \<^verbatim>\<open>
  def __init__(self, cfg, state_path=..., max_queue=200, log_fn=None):
      self.cfg = cfg.get("alerts", {}) if isinstance(cfg, dict) else {}
      self.enabled = bool(self.cfg.get("enabled", False))
      self.cooldown_default = int(self.cfg.get("cooldown_seconds_default", 900))
      self.cooldowns = self.cfg.get("cooldowns", {}) or {}
      self.dedupe_seconds = int(self.cfg.get("dedupe_seconds", 300))
      self.include_host = bool(self.cfg.get("include_host", True))
      self.include_identity = bool(self.cfg.get("include_identity", True))
      self._q = queue.Queue(maxsize=max_queue)
      self._state = {"last_event": {}, "last_key": {}, "suppressed": {}}
      self._load_state()
      self.backends = []
      if self.enabled:
          self._init_backends()
          self._worker.start()
  \<close>
  The parameter \<^verbatim>\<open>cfg\<close> is \<open>config\<close> here. The result is the manager and the calls of
  the logging callback.
\<close>

definition alerts_section :: "pyval \<Rightarrow> pyval" where
  "alerts_section config =
     (case config of
        VDict kvs \<Rightarrow> (case map_of kvs ''alerts'' of Some v \<Rightarrow> v | None \<Rightarrow> VDict [])
      | _ \<Rightarrow> VDict [])"

definition init ::
  "pyenv \<Rightarrow> pyval \<Rightarrow> int \<Rightarrow> (string \<Rightarrow> string \<Rightarrow> exn option) option \<Rightarrow> exn + pyval option
   \<Rightarrow> exn + (manager \<times> (string \<times> string) list)" where
  "init env config max_q lf file =
     (let acfg = alerts_section config in
      bind (dict_get acfg ''enabled'' (VBool False)) (\<lambda>en.
      bind (dict_get acfg ''cooldown_seconds_default'' (VInt 900)) (\<lambda>cd0.
      bind (py_int env cd0) (\<lambda>cd.
      bind (dict_get acfg ''cooldowns'' (VDict [])) (\<lambda>cds.
      bind (dict_get acfg ''dedupe_seconds'' (VInt 300)) (\<lambda>dd0.
      bind (py_int env dd0) (\<lambda>dd.
      bind (dict_get acfg ''include_host'' (VBool True)) (\<lambda>ih.
      bind (dict_get acfg ''include_identity'' (VBool True)) (\<lambda>ii.
        let m = \<lparr>cfg = acfg, enabled = truthy en, cooldown_default = cd,
                 cooldowns = py_or cds (VDict []), dedupe_seconds = dd,
                 include_host = truthy ih, include_identity = truthy ii,
                 max_queue = max_q, q = [], state = load_state file, backends = [],
                 log_fn = lf\<rparr>
        in if enabled m then init_backends env m [] else Inr (m, []))))))))))"

section \<open>Notions of the specification\<close>

text \<open>
  The requests one call of the Telegram channel's \<^verbatim>\<open>send\<close> is to make: for each
  recipient in turn, one per chunk. And "every one of these calls succeeds", where the
  network answers each call knowing the calls before it.
\<close>

definition telegram_call :: "backend \<Rightarrow> int \<Rightarrow> string \<Rightarrow> http_call" where
  "telegram_call b chat_id chunk =
     \<lparr>url = telegram_url (token b), payload = telegram_payload b chat_id chunk, timeout = timeout_s b\<rparr>"

definition telegram_calls :: "backend \<Rightarrow> int list \<Rightarrow> string list \<Rightarrow> http_call list" where
  "telegram_calls b ids chunks = concat (map (\<lambda>chat_id. map (telegram_call b chat_id) chunks) ids)"

fun all_succeed :: "network \<Rightarrow> http_call list \<Rightarrow> http_call list \<Rightarrow> bool" where
  "all_succeed net calls [] = True"
| "all_succeed net calls (c # cs) = (net calls c = None \<and> all_succeed net (calls @ [c]) cs)"


text \<open>
  Reading the suppression state: the value stored under a key of one of its three
  dicts, and the spec's \<open>last_event_sent\<close>, \<open>last_key_sent\<close> and \<open>suppressed_count\<close>, which
  read a missing entry as 0, as \<^verbatim>\<open>_should_send\<close> does.
\<close>

definition entry :: "pyval \<Rightarrow> string \<Rightarrow> string \<Rightarrow> pyval option" where
  "entry st name k =
     (case st of
        VDict kvs \<Rightarrow> (case map_of kvs name of Some (VDict d) \<Rightarrow> map_of d k | _ \<Rightarrow> None)
      | _ \<Rightarrow> None)"

definition last_event_sent :: "pyval \<Rightarrow> string \<Rightarrow> real" where
  "last_event_sent st ev = (case entry st ''last_event'' ev of Some (VFloat x) \<Rightarrow> x | _ \<Rightarrow> 0)"

definition last_key_sent :: "pyval \<Rightarrow> string \<Rightarrow> real" where
  "last_key_sent st key = (case entry st ''last_key'' key of Some (VFloat x) \<Rightarrow> x | _ \<Rightarrow> 0)"

definition suppressed_count :: "pyval \<Rightarrow> string \<Rightarrow> int" where
  "suppressed_count st ev = (case entry st ''suppressed'' ev of Some (VInt n) \<Rightarrow> n | _ \<Rightarrow> 0)"

text \<open>
  A well-formed suppression state: a dict that holds the three dicts, with floats for
  the timestamps and integers for the counters. The initial state is one, and the
  decision and the marking keep it so.
\<close>

definition is_float :: "pyval \<Rightarrow> bool" where
  "is_float v = (case v of VFloat x \<Rightarrow> True | _ \<Rightarrow> False)"

definition is_int :: "pyval \<Rightarrow> bool" where
  "is_int v = (case v of VInt n \<Rightarrow> True | _ \<Rightarrow> False)"

definition dict_of :: "(pyval \<Rightarrow> bool) \<Rightarrow> pyval option \<Rightarrow> bool" where
  "dict_of P v = (case v of Some (VDict d) \<Rightarrow> list_all (\<lambda>kv. P (snd kv)) d | _ \<Rightarrow> False)"

definition wf_state :: "pyval \<Rightarrow> bool" where
  "wf_state st =
     (case st of
        VDict kvs \<Rightarrow>
          dict_of is_float (map_of kvs ''last_event'')
          \<and> dict_of is_float (map_of kvs ''last_key'')
          \<and> dict_of is_int (map_of kvs ''suppressed'')
      | _ \<Rightarrow> False)"


text \<open>
  Runs of the decision and the marking in any order, each with the clock it reads (and,
  for the marking, whether the write of the state file goes through), from a manager and
  a state file.
\<close>

datatype op = Decide alert string | MarkSent alert string bool

fun apply_op :: "pyenv \<Rightarrow> real \<times> op \<Rightarrow> manager \<times> pyval option \<Rightarrow> exn + (manager \<times> pyval option)" where
  "apply_op env (now, Decide a r) (m, d) =
     bind (should_send env m a r now) (\<lambda>(allowed, m'). Inr (m', d))"
| "apply_op env (now, MarkSent a r write_ok) (m, d) = mark_sent env m a r now write_ok d"

fun run_ops :: "pyenv \<Rightarrow> (real \<times> op) list \<Rightarrow> manager \<times> pyval option \<Rightarrow> exn + (manager \<times> pyval option)" where
  "run_ops env [] md = Inr md"
| "run_ops env (x # xs) md = bind (apply_op env x md) (run_ops env xs)"

text \<open>
  Timestamps never move backward from one state to a later one: an entry of
  \<^verbatim>\<open>last_event\<close> or \<^verbatim>\<open>last_key\<close> is still there, with a value that is not smaller. And no
  timestamp of a state is later than a given clock read.
\<close>

definition is_ts :: "string \<Rightarrow> bool" where
  "is_ts name = (name = ''last_event'' \<or> name = ''last_key'')"

definition never_backward :: "pyval \<Rightarrow> pyval \<Rightarrow> bool" where
  "never_backward st st' =
     (\<forall>name k x. is_ts name \<longrightarrow> entry st name k = Some (VFloat x) \<longrightarrow>
        (\<exists>y. entry st' name k = Some (VFloat y) \<and> x \<le> y))"

definition not_after :: "real \<Rightarrow> pyval \<Rightarrow> bool" where
  "not_after c st = (\<forall>name k x. is_ts name \<longrightarrow> entry st name k = Some (VFloat x) \<longrightarrow> x \<le> c)"

text \<open>
  A configuration the constructor is written for. A setting is the value under a key of
  a section, or its default; \<open>sub_cfg\<close> is a section of the \<^verbatim>\<open>alerts\<close> section, empty
  when it is missing or falsy. The numeric settings are values that \<^verbatim>\<open>int()\<close> accepts
  (\<open>int_val\<close> is the integer it gives); the \<^verbatim>\<open>alerts\<close> section and the channels'
  sections are mappings; the names of the environment variables are strings; the
  recipients are a list of such values, one such value, or a string of them separated
  by commas (\<open>pieces\<close>: the parts that are not blank, stripped). A channel is listed
  when \<^verbatim>\<open>backends\<close> holds its name, in any case and with any white space around it.

  The credential of a channel is the value of the environment variable that the
  channel's section names (\<^verbatim>\<open>token_env\<close>, \<^verbatim>\<open>webhook_env\<close>, or the default name), empty
  when the variable is not set. The channels of a configuration: the Telegram channel
  when it is listed, its credential is not empty and it has a recipient; the Discord
  channel when it is listed and its credential is not empty. The timeout of a channel
  has to be a value that \<^verbatim>\<open>int()\<close> accepts only when the channel is one of these.
\<close>

definition int_like :: "pyenv \<Rightarrow> pyval \<Rightarrow> bool" where
  "int_like env v =
     (case v of
        VBool b \<Rightarrow> True | VInt i \<Rightarrow> True | VFloat x \<Rightarrow> True
      | VStr s \<Rightarrow> int_of_str env s \<noteq> None
      | _ \<Rightarrow> False)"

definition setting :: "pyval \<Rightarrow> string \<Rightarrow> pyval \<Rightarrow> pyval" where
  "setting sec k dflt =
     (case sec of
        VDict kvs \<Rightarrow> (case map_of kvs k of Some v \<Rightarrow> v | None \<Rightarrow> dflt)
      | _ \<Rightarrow> dflt)"

definition sub_cfg :: "pyval \<Rightarrow> string \<Rightarrow> pyval" where
  "sub_cfg acfg name = py_or (setting acfg name (VDict [])) (VDict [])"

definition is_dict :: "pyval \<Rightarrow> bool" where
  "is_dict v = (case v of VDict kvs \<Rightarrow> True | _ \<Rightarrow> False)"

definition is_str :: "pyval \<Rightarrow> bool" where
  "is_str v = (case v of VStr s \<Rightarrow> True | _ \<Rightarrow> False)"

definition iterable :: "pyval \<Rightarrow> bool" where
  "iterable v = (case v of VList xs \<Rightarrow> True | VStr s \<Rightarrow> True | VDict kvs \<Rightarrow> True | _ \<Rightarrow> False)"

definition backends_setting :: "pyval \<Rightarrow> pyval" where
  "backends_setting acfg = py_or (setting acfg ''backends'' (VList [])) (VList [])"

definition listed :: "pyval \<Rightarrow> string \<Rightarrow> bool" where
  "listed acfg name =
     (case py_iter (backends_setting acfg) of
        Inr xs \<Rightarrow> name \<in> set (map (\<lambda>b. lower (strip b)) (strs xs))
      | Inl e \<Rightarrow> False)"

definition chat_ids_setting :: "pyval \<Rightarrow> pyval" where
  "chat_ids_setting tcfg = py_or (setting tcfg ''chat_ids'' VNone) (setting tcfg ''chat_id'' VNone)"

definition pieces :: "string \<Rightarrow> string list" where
  "pieces s = map strip (filter (\<lambda>x. strip x \<noteq> []) (split_on (CHR '','') s))"

definition chat_ids_ok :: "pyenv \<Rightarrow> pyval \<Rightarrow> bool" where
  "chat_ids_ok env v =
     (case v of
        VList xs \<Rightarrow> list_all (int_like env) xs
      | VStr s \<Rightarrow>
          if CHR '','' \<in> set s then list_all (\<lambda>x. int_of_str env x \<noteq> None) (pieces s)
          else int_of_str env s \<noteq> None
      | _ \<Rightarrow> True)"

definition int_val :: "pyenv \<Rightarrow> pyval \<Rightarrow> int" where
  "int_val env v = (case py_int env v of Inr i \<Rightarrow> i | Inl e \<Rightarrow> 0)"

definition recipients :: "pyenv \<Rightarrow> pyval \<Rightarrow> int list" where
  "recipients env v =
     (case v of
        VList xs \<Rightarrow> map (int_val env) xs
      | VStr s \<Rightarrow>
          if CHR '','' \<in> set s then map (\<lambda>x. int_val env (VStr x)) (pieces s)
          else [int_val env (VStr s)]
      | VInt i \<Rightarrow> [i]
      | VBool b \<Rightarrow> [if b then 1 else 0]
      | _ \<Rightarrow> [])"

definition credential :: "pyenv \<Rightarrow> pyval \<Rightarrow> string \<Rightarrow> string \<Rightarrow> string" where
  "credential env sec key dflt =
     (case setting sec key (VStr dflt) of
        VStr name \<Rightarrow> (case getenv env name of Some v \<Rightarrow> v | None \<Rightarrow> [])
      | _ \<Rightarrow> [])"

definition telegram_channel :: "pyenv \<Rightarrow> pyval \<Rightarrow> backend list" where
  "telegram_channel env acfg =
     (let tcfg = sub_cfg acfg ''telegram'';
          tok = credential env tcfg ''token_env'' ''RUST_WD_TELEGRAM_TOKEN'';
          ids = recipients env (chat_ids_setting tcfg)
      in if listed acfg ''telegram'' \<and> tok \<noteq> [] \<and> ids \<noteq> [] then
           [TelegramBackend tok ids
              (setting tcfg ''parse_mode'' (VStr ''HTML''))
              (truthy (setting tcfg ''disable_web_preview'' (VBool True)))
              (int_val env (setting tcfg ''timeout_s'' (VInt 8)))]
         else [])"

definition discord_channel :: "pyenv \<Rightarrow> pyval \<Rightarrow> backend list" where
  "discord_channel env acfg =
     (let dcfg = sub_cfg acfg ''discord'';
          webhook = credential env dcfg ''webhook_env'' ''RUST_WD_DISCORD_WEBHOOK''
      in if listed acfg ''discord'' \<and> webhook \<noteq> [] then
           [DiscordWebhookBackend webhook (int_val env (setting dcfg ''timeout_s'' (VInt 8)))]
         else [])"

definition channels :: "pyenv \<Rightarrow> pyval \<Rightarrow> backend list" where
  "channels env acfg = telegram_channel env acfg @ discord_channel env acfg"

definition telegram_ok :: "pyenv \<Rightarrow> pyval \<Rightarrow> bool" where
  "telegram_ok env acfg =
     (let tcfg = sub_cfg acfg ''telegram'' in
      is_dict tcfg
      \<and> is_str (setting tcfg ''token_env'' (VStr ''RUST_WD_TELEGRAM_TOKEN''))
      \<and> chat_ids_ok env (chat_ids_setting tcfg)
      \<and> (telegram_channel env acfg \<noteq> [] \<longrightarrow> int_like env (setting tcfg ''timeout_s'' (VInt 8))))"

definition discord_ok :: "pyenv \<Rightarrow> pyval \<Rightarrow> bool" where
  "discord_ok env acfg =
     (let dcfg = sub_cfg acfg ''discord'' in
      is_dict dcfg
      \<and> is_str (setting dcfg ''webhook_env'' (VStr ''RUST_WD_DISCORD_WEBHOOK''))
      \<and> (discord_channel env acfg \<noteq> [] \<longrightarrow> int_like env (setting dcfg ''timeout_s'' (VInt 8))))"

definition config_ok :: "pyenv \<Rightarrow> pyval \<Rightarrow> bool" where
  "config_ok env config =
     (let acfg = alerts_section config in
      is_dict acfg
      \<and> int_like env (setting acfg ''cooldown_seconds_default'' (VInt 900))
      \<and> int_like env (setting acfg ''dedupe_seconds'' (VInt 300))
      \<and> (truthy (setting acfg ''enabled'' (VBool False)) \<longrightarrow>
            iterable (backends_setting acfg)
            \<and> (listed acfg ''telegram'' \<longrightarrow> telegram_ok env acfg)
            \<and> (listed acfg ''discord'' \<longrightarrow> discord_ok env acfg)))"

section \<open>Concrete inputs\<close>

text \<open>
  Inputs for the examples: environments (in \<open>env0\<close> no string is parsed as a number,
  in \<open>env1\<close> the strings 12 and 34 are, and the Telegram token is set; in \<open>env_bare\<close>
  only \<^verbatim>\<open>PATH\<close> is set; with \<open>env0\<close> the examples subtract only floats whose
  difference is a float, so nothing is rounded), networks (one that answers every call,
  one whose every call ends in an exception of \<^verbatim>\<open>http.client\<close>, one that is down, one
  that reaches only the webhook), channels, managers, alerts, states and a
  configuration.
\<close>

definition env0 :: pyenv where
  "env0 = \<lparr>sha1 = (\<lambda>s. s), int_of_str = (\<lambda>s. None), float_of_str = (\<lambda>s. None),
      format_other = (\<lambda>v. ''?''), nodename = ''host1'', getenv = (\<lambda>s. None), request_ok = (\<lambda>u. True),
      float_round = (\<lambda>x. x)\<rparr>"

definition net_up :: network where
  "net_up calls c = None"

definition net_broken :: network where
  "net_broken calls c = Some HTTPException"

definition telegram0 :: backend where
  "telegram0 = TelegramBackend ''T'' [1, 2] (VStr ''HTML'') True 8"

definition a0 :: alert where
  "a0 = \<lparr>event = ''disk_low'', level = ''WARNING'', title = ''Disk Low'', body_text = ''/data at 92%'',
     alert_fields = [], ts = 0\<rparr>"

definition m0 :: manager where
  "m0 = \<lparr>cfg = VDict [], enabled = True, cooldown_default = 900, cooldowns = VDict [], dedupe_seconds = 300,
     include_host = True, include_identity = True, max_queue = 2, q = [],
     state = VDict [(''last_event'', VDict []), (''last_key'', VDict []), (''suppressed'', VDict [])],
     backends = [telegram0, DiscordWebhookBackend ''https://x'' 8], log_fn = None\<rparr>"

definition a_long :: alert where
  "a_long = \<lparr>event = ''e'', level = ''INFO'', title = replicate 4096 (CHR ''a''), body_text = ''x'',
     alert_fields = [], ts = 0\<rparr>"

definition a_two :: alert where
  "a_two = \<lparr>event = ''e'', level = ''INFO'', title = ''t'', body_text = replicate 4097 (CHR ''b''),
     alert_fields = [], ts = 0\<rparr>"

definition r_two :: string where
  "r_two = ''[RustWatchdog][host1] INFO: t'' @ [CHR 0x0A] @ replicate 4097 (CHR ''b'')"

definition a_one :: alert where
  "a_one = \<lparr>event = ''e'', level = ''INFO'', title = ''t'', body_text = ''x'', alert_fields = [], ts = 0\<rparr>"

definition r_one :: string where
  "r_one = ''[RustWatchdog][host1] INFO: t'' @ [CHR 0x0A] @ ''x''"

definition a_bad :: alert where
  "a_bad = \<lparr>event = ''e'', level = ''INFO'', title = ''t'', body_text = ''x'',
     alert_fields = [(''identity'', VInt 5)], ts = 0\<rparr>"


definition w0 :: world where
  "w0 = \<lparr>requests = [], disk = None\<rparr>"



definition r0 :: string where
  "r0 = ''[RustWatchdog][host1] WARNING: Disk Low'' @ [CHR 0x0A] @ ''/data at 92%''"

definition marked0 :: pyval where
  "marked0 = VDict [(''last_event'', VDict [(''disk_low'', VFloat 1001)]),
                    (''last_key'', VDict [(''disk_low:'' @ r0, VFloat 1001)]),
                    (''suppressed'', VDict [])]"

definition suppressed0 :: pyval where
  "suppressed0 = VDict [(''last_event'', VDict [(''disk_low'', VFloat 1001)]),
                    (''last_key'', VDict [(''disk_low:'' @ r0, VFloat 1001)]),
                    (''suppressed'', VDict [(''disk_low'', VInt 1)])]"

definition s10 :: pyval where
  "s10 = VDict [(''last_event'', VDict [(''disk_low'', VFloat 10)]),
                (''last_key'', VDict [(''disk_low:r'', VFloat 10)]),
                (''suppressed'', VDict [])]"

definition s30 :: pyval where
  "s30 = VDict [(''last_event'', VDict [(''disk_low'', VFloat 30)]),
                (''last_key'', VDict [(''disk_low:r'', VFloat 30)]),
                (''suppressed'', VDict [(''disk_low'', VInt 0)])]"

text \<open>
  The doubles nearest to 0.3 and to 900.3, and an environment that rounds to 900 the
  reals less than half the distance of two neighbouring doubles away from it (between
  512 and 1024 neighbouring doubles are \<open>1 / 2 ^ 43\<close> apart).
\<close>

definition f_03 :: real where
  "f_03 = 5404319552844595 / 2 ^ 54"

definition f_9003 :: real where
  "f_9003 = 3959561273946931 / 2 ^ 42"

definition env_near :: pyenv where
  "env_near = env0\<lparr>float_round := (\<lambda>x. if \<bar>x - 900\<bar> < 1 / 2 ^ 44 then 900 else x)\<rparr>"

definition sent_03 :: pyval where
  "sent_03 = VDict [(''last_event'', VDict [(''disk_low'', VFloat f_03)]),
                    (''last_key'', VDict []),
                    (''suppressed'', VDict [])]"

definition alerts_tg :: pyval where
  "alerts_tg = VDict [(''enabled'', VBool True), (''backends'', VList [VStr '' Telegram '', VInt 3]),
      (''telegram'', VDict [(''chat_id'', VStr ''12, 34'')])]"

definition cfg_tg :: pyval where
  "cfg_tg = VDict [(''alerts'', alerts_tg)]"

definition env1 :: pyenv where
  "env1 = env0\<lparr>int_of_str := (\<lambda>s. if s = ''12'' then Some 12 else if s = ''34'' then Some 34 else None),
      getenv := (\<lambda>n. if n = ''RUST_WD_TELEGRAM_TOKEN'' then Some ''T'' else None)\<rparr>"

definition env_bare :: pyenv where
  "env_bare = env1\<lparr>getenv := (\<lambda>n. if n = ''PATH'' then Some ''/usr/bin'' else None)\<rparr>"

definition m_tg :: manager where
  "m_tg = \<lparr>cfg = alerts_tg,
     enabled = True, cooldown_default = 900, cooldowns = VDict [], dedupe_seconds = 300,
     include_host = True, include_identity = True, max_queue = 200, q = [],
     state = initial_state,
     backends = [TelegramBackend ''T'' [12, 34] (VStr ''HTML'') True 8], log_fn = None\<rparr>"

section \<open>Properties of chunking\<close>

lemma concat_slices:
  "0 < step \<Longrightarrow> concat (map (\<lambda>i. take step (drop i msg)) (py_range i (length msg) step)) = drop i msg"
proof (induction i "length msg" step rule: py_range.induct)
  case (1 i step)
  show ?case
  proof (cases "i < length msg")
    case True
    have "take step (drop i msg) @ drop (i + step) msg = drop i msg"
      by (metis add.commute append_take_drop_id drop_drop)
    with True 1 show ?thesis
      by (subst py_range.simps) simp
  next
    case False
    then show ?thesis
      by (subst py_range.simps) simp
  qed
qed

lemma set_py_range: "x \<in> set (py_range i n step) \<Longrightarrow> x < n"
proof (induction i n step rule: py_range.induct)
  case (1 i n step)
  show ?case
  proof (cases "i < n \<and> 0 < step")
    case True
    with "1.prems" have "x = i \<or> x \<in> set (py_range (i + step) n step)"
      by (subst (asm) py_range.simps) simp
    with True "1.IH" show ?thesis by auto
  next
    case False
    with "1.prems" show ?thesis
      by (subst (asm) py_range.simps) simp
  qed
qed

lemma length_py_range: "0 < step \<Longrightarrow> length (py_range i n step) = (n - i + step - 1) div step"
proof (induction i n step rule: py_range.induct)
  case (1 i n step)
  show ?case
  proof (cases "i < n")
    case True
    define a where "a = n - (i + step) + step - 1"
    have "length (py_range i n step) = Suc (length (py_range (i + step) n step))"
      using True "1.prems" by (subst py_range.simps) simp
    also have "\<dots> = Suc (a div step)"
      using True 1 by (simp add: a_def)
    also have "\<dots> = (a + step) div step"
      using "1.prems" by simp
    also have "\<dots> = (n - i + step - 1) div step"
    proof (cases "i + step \<le> n")
      case True
      then have "a + step = n - i + step - 1"
        using "1.prems" unfolding a_def by arith
      then show ?thesis by simp
    next
      case False
      then have a: "a + step = (step - 1) + step" by (simp add: a_def)
      have b: "(step - 1 + step) div step = 1"
        using "1.prems" by (intro div_nat_eqI) auto
      have "step \<le> n - i + step - 1" "n - i + step - 1 < 2 * step"
        using True False "1.prems" by arith+
      then have "(n - i + step - 1) div step = 1"
        by (intro div_nat_eqI) auto
      with a b show ?thesis by simp
    qed
    finally show ?thesis .
  next
    case False
    then show ?thesis
      using "1.prems" by (subst py_range.simps) simp
  qed
qed

lemma split_telegram_nonempty: "split_telegram msg \<noteq> []"
proof (cases "length msg \<le> TELEGRAM_LIMIT")
  case True
  then show ?thesis by (simp add: split_telegram_def)
next
  case False
  then have "0 < length msg" by (auto simp: TELEGRAM_LIMIT_def)
  then have "py_range 0 (length msg) TELEGRAM_LIMIT \<noteq> []"
    by (subst py_range.simps) (simp add: TELEGRAM_LIMIT_def)
  then show ?thesis using False
    by (simp add: split_telegram_def)
qed

text \<open>
  C10: the chunks of a message, concatenated in order, are the message; no chunk is longer
  than 4096 characters; no chunk of a non-empty message is empty; and the empty message
  gives the one-element list holding the empty string, so the list of chunks is never
  empty.
\<close>

theorem split_telegram_lossless:
  "concat (split_telegram msg) = msg
   \<and> (\<forall>c \<in> set (split_telegram msg). length c \<le> 4096)
   \<and> (msg \<noteq> [] \<longrightarrow> (\<forall>c \<in> set (split_telegram msg). c \<noteq> []))
   \<and> split_telegram ([] :: 'a list) = [[]]
   \<and> split_telegram msg \<noteq> []"
proof -
  have c: "concat (split_telegram msg) = msg"
    using concat_slices [of TELEGRAM_LIMIT msg 0]
    by (simp add: split_telegram_def TELEGRAM_LIMIT_def)
  have l: "\<forall>c \<in> set (split_telegram msg). length c \<le> 4096"
    by (auto simp: split_telegram_def TELEGRAM_LIMIT_def)
  have n: "msg \<noteq> [] \<longrightarrow> (\<forall>c \<in> set (split_telegram msg). c \<noteq> [])"
    by (auto simp: split_telegram_def TELEGRAM_LIMIT_def dest: set_py_range)
  have e: "split_telegram ([] :: 'a list) = [[]]"
    by (simp add: split_telegram_def)
  have ne: "split_telegram msg \<noteq> []"
    by (rule split_telegram_nonempty)
  from c l n e ne show ?thesis by blast
qed

theorem split_telegram_lossless_witness:
  "split_telegram ''abc'' = [''abc'']
   \<and> concat (split_telegram ''abc'') = ''abc''
   \<and> ''abc'' \<noteq> []
   \<and> list_all (\<lambda>c. c \<noteq> [] \<and> length c \<le> 4096) (split_telegram ''abc'')"
  using split_telegram_lossless [of "''abc''"]
  by (simp add: split_telegram_def TELEGRAM_LIMIT_def)

lemma chunk_count: "length msg = 4096 * k + 1 \<Longrightarrow> length (split_telegram msg) = k + 1"
proof (cases "k = 0")
  case True
  assume "length msg = 4096 * k + 1"
  with True show ?thesis by (simp add: split_telegram_def TELEGRAM_LIMIT_def)
next
  case False
  assume l: "length msg = 4096 * k + 1"
  with False have "\<not> length msg \<le> TELEGRAM_LIMIT" by (simp add: TELEGRAM_LIMIT_def)
  moreover have "(length msg - 0 + TELEGRAM_LIMIT - 1) div TELEGRAM_LIMIT = k + 1"
    using l by (simp add: TELEGRAM_LIMIT_def)
  ultimately show ?thesis
    by (simp add: split_telegram_def length_py_range TELEGRAM_LIMIT_def)
qed

lemma length_split_telegram:
  "length (split_telegram msg) = (if length msg \<le> 4096 then 1 else (length msg + 4095) div 4096)"
  by (simp add: split_telegram_def TELEGRAM_LIMIT_def length_py_range add.commute)

section \<open>Properties of the channels\<close>

lemma env0_simps [simp]:
  "sha1 env0 = (\<lambda>s. s)" "int_of_str env0 = (\<lambda>s. None)" "float_of_str env0 = (\<lambda>s. None)"
  "format_other env0 = (\<lambda>v. ''?'')" "nodename env0 = ''host1''" "getenv env0 = (\<lambda>s. None)"
  "request_ok env0 = (\<lambda>u. True)" "float_round env0 = (\<lambda>x. x)" "float_sub env0 x y = x - y"
  "request_accepts env0 u"
  by (simp_all add: env0_def float_sub_def request_accepts_def)

lemma request_accepts_telegram: "request_accepts env (telegram_url tok)"
  by (simp add: request_accepts_def telegram_url_def)

lemma all_succeed_append:
  "all_succeed net calls (xs @ ys) = (all_succeed net calls xs \<and> all_succeed net (calls @ xs) ys)"
  by (induction xs arbitrary: calls) auto

lemma attempt_caught:
  assumes "request_accepts env u" and "\<And>e. net calls \<lparr>url = u, payload = p, timeout = t\<rparr> = Some e \<Longrightarrow> caught e"
  shows "attempt env net u p t calls =
           (Inr (net calls \<lparr>url = u, payload = p, timeout = t\<rparr> = None),
            calls @ [\<lparr>url = u, payload = p, timeout = t\<rparr>])"
  using assms by (auto simp: attempt_def Let_def split: option.splits)

lemma send_chunks_all:
  assumes "\<And>tr c e. net tr c = Some e \<Longrightarrow> caught e"
  shows "send_chunks env net b chat_id chunks ok calls =
           (Inr (ok \<and> all_succeed net calls (map (telegram_call b chat_id) chunks)),
            calls @ map (telegram_call b chat_id) chunks)"
proof (induction chunks arbitrary: ok calls)
  case Nil
  show ?case by simp
next
  case (Cons chunk chunks)
  have "attempt env net (telegram_url (token b)) (telegram_payload b chat_id chunk) (timeout_s b) calls =
          (Inr (net calls (telegram_call b chat_id chunk) = None), calls @ [telegram_call b chat_id chunk])"
    unfolding telegram_call_def using assms by (intro attempt_caught request_accepts_telegram) auto
  then show ?case
    by (auto simp: Cons.IH)
qed

lemma send_chats_all:
  assumes "\<And>tr c e. net tr c = Some e \<Longrightarrow> caught e"
  shows "send_chats env net b ids chunks ok calls =
           (Inr (ok \<and> all_succeed net calls (telegram_calls b ids chunks)),
            calls @ telegram_calls b ids chunks)"
proof (induction ids arbitrary: ok calls)
  case Nil
  show ?case by (simp add: telegram_calls_def)
next
  case (Cons chat_id ids)
  have c: "telegram_calls b (chat_id # ids) chunks = map (telegram_call b chat_id) chunks @ telegram_calls b ids chunks"
    by (simp add: telegram_calls_def)
  show ?case
    by (simp add: send_chunks_all [OF assms] Cons.IH c all_succeed_append conj_assoc)
qed

lemma length_telegram_calls: "length (telegram_calls b ids chunks) = length chunks * length ids"
  by (induction ids) (simp_all add: telegram_calls_def)

lemma render_longer:
  assumes "render env m a = Inr rendered"
  shows "length (body_text a) < length rendered"
proof -
  from assms obtain head where r: "rendered = join [CHR 0x0A] [head, body_text a]
      \<or> (\<exists>fl. rendered = join [CHR 0x0A] [head, body_text a, fl])"
    by (auto simp: render_def bind_def Let_def split: sum.splits if_splits)
  then show ?thesis by auto
qed

lemma chunk_count_between:
  assumes "4096 * k < n" and "n \<le> 4096 * k + 4096"
  shows "(if n \<le> 4096 then 1 else (n + 4095) div 4096) = k + (1::nat)"
proof (cases "n \<le> 4096")
  case True
  with assms(1) have "k = 0" by simp
  with True show ?thesis by simp
next
  case False
  have "(n + 4095) div 4096 = k + 1"
    using assms by (intro div_nat_eqI) simp_all
  with False show ?thesis by simp
qed

text \<open>
  C7, as the code has it: the Telegram channel splits the rendered message, which is
  longer than the alert's body text. For an alert whose body text has 4096 k + 1
  characters and whose rendered message has at most 4095 characters more than the body
  text, the rendered message is split into k + 1 chunks, and \<^verbatim>\<open>send\<close> makes k + 1
  transport calls for each recipient (when no call raises an exception outside the
  \<^verbatim>\<open>except\<close> clause).
\<close>

theorem chunk_count_alert:
  assumes "length (body_text a) = 4096 * k + 1"
    and "render env m a = Inr rendered"
    and "length rendered \<le> length (body_text a) + 4095"
    and "\<And>tr c e. net tr c = Some e \<Longrightarrow> caught e"
  shows "length (split_telegram rendered) = k + 1
    \<and> (\<exists>ok new. send env net (TelegramBackend tok ids pm dwp t) a rendered calls = (Inr ok, calls @ new)
          \<and> length new = (k + 1) * length ids)"
proof -
  have "length (body_text a) < length rendered"
    using assms(2) by (rule render_longer)
  with assms(1,3) have "4096 * k < length rendered" "length rendered \<le> 4096 * k + 4096"
    by simp_all
  then have n: "length (split_telegram rendered) = k + 1"
    unfolding length_split_telegram by (rule chunk_count_between)
  have "send env net (TelegramBackend tok ids pm dwp t) a rendered calls =
      (Inr (all_succeed net calls (telegram_calls (TelegramBackend tok ids pm dwp t) ids (split_telegram rendered))),
       calls @ telegram_calls (TelegramBackend tok ids pm dwp t) ids (split_telegram rendered))"
    using send_chats_all [of net env "TelegramBackend tok ids pm dwp t" ids "split_telegram rendered" True calls]
      assms(4) by simp
  moreover have "length (telegram_calls (TelegramBackend tok ids pm dwp t) ids (split_telegram rendered)) = (k + 1) * length ids"
    by (simp add: length_telegram_calls n)
  ultimately show ?thesis using n by blast
qed

theorem chunk_count_alert_witness:
  "length (body_text a_two) = 4096 * 1 + 1
   \<and> render env0 m0 a_two = Inr r_two
   \<and> length r_two \<le> length (body_text a_two) + 4095
   \<and> length (split_telegram r_two) = 2
   \<and> length (snd (send env0 net_up telegram0 a_two r_two [])) = 4"
proof -
  have b: "length (body_text a_two) = 4096 * 1 + 1"
    by (simp add: a_two_def)
  have r: "render env0 m0 a_two = Inr r_two"
    by (simp add: render_def head_line_def bracket_def bind_def m0_def a_two_def r_two_def)
  have l: "length r_two \<le> length (body_text a_two) + 4095"
    by (simp add: a_two_def r_two_def)
  from chunk_count_alert [where net = net_up and ids = "[1, 2]" and pm = "VStr ''HTML''" and dwp = True
      and tok = "''T''" and t = 8 and calls = "[]", OF b r l]
  have "length (split_telegram r_two) = 2
     \<and> length (snd (send env0 net_up telegram0 a_two r_two [])) = 4"
    unfolding telegram0_def by (auto simp: net_up_def simp del: send.simps)
  with b r l show ?thesis by simp
qed

text \<open>
  C7 as stated fails: an alert whose body text has one character (k = 0) and whose title
  has 4096 is rendered to more than 4096 characters, which are two chunks. And for an
  alert whose body text has one character and whose rendered message is one chunk, a
  transport whose calls end in an exception of \<^verbatim>\<open>http.client\<close> gets one call for two
  recipients, not one call for each.
\<close>

theorem chunk_count_body_counterexample:
  "length (body_text a_long) = 4096 * 0 + 1
   \<and> map_sum id (\<lambda>r. length (split_telegram r)) (render env0 m0 a_long) = Inr 2
   \<and> length (body_text a_one) = 4096 * 0 + 1
   \<and> render env0 m0 a_one = Inr r_one
   \<and> length (split_telegram r_one) = 1
   \<and> length (chat_ids telegram0) = 2
   \<and> length (snd (send env0 net_broken telegram0 a_one r_one [])) = 1"
proof -
  have "length (body_text a_long) = 4096 * 0 + 1
     \<and> map_sum id (\<lambda>r. length (split_telegram r)) (render env0 m0 a_long) = Inr 2"
    by (simp add: a_long_def render_def head_line_def bracket_def bind_def m0_def length_split_telegram)
  moreover have "length (body_text a_one) = 4096 * 0 + 1 \<and> render env0 m0 a_one = Inr r_one"
    by (simp add: a_one_def r_one_def render_def head_line_def bracket_def bind_def m0_def)
  moreover have "length (split_telegram r_one) = 1 \<and> length (chat_ids telegram0) = 2"
    by (simp add: r_one_def length_split_telegram telegram0_def)
  moreover have "length (snd (send env0 net_broken telegram0 a_one r_one [])) = 1"
    by (simp add: telegram0_def r_one_def split_telegram_def TELEGRAM_LIMIT_def attempt_def
        net_broken_def caught_def)
  ultimately show ?thesis by simp
qed

text \<open>
  What the \<^verbatim>\<open>except\<close> clause achieves. When every exception of a transport call is one
  of its four classes: the Telegram channel's \<^verbatim>\<open>send\<close> makes every call of every
  recipient and chunk, whatever fails, and returns whether all of them succeeded; the
  Discord channel's (given that \<^verbatim>\<open>Request\<close> accepts the webhook URL) makes its one call
  and returns whether it succeeded.
\<close>

lemma send_aggregate:
  assumes "\<And>tr c e. net tr c = Some e \<Longrightarrow> caught e"
  shows "send env net (TelegramBackend tok ids pm dwp t) a rendered calls =
              (Inr (all_succeed net calls (telegram_calls (TelegramBackend tok ids pm dwp t) ids (split_telegram rendered))),
               calls @ telegram_calls (TelegramBackend tok ids pm dwp t) ids (split_telegram rendered))
       \<and> length (telegram_calls (TelegramBackend tok ids pm dwp t) ids (split_telegram rendered))
                = length (split_telegram rendered) * length ids
       \<and> (request_accepts env u \<longrightarrow>
            send env net (DiscordWebhookBackend u t') a rendered calls =
              (Inr (net calls \<lparr>url = u, payload = [(''content'', VStr rendered)], timeout = t'\<rparr> = None),
               calls @ [\<lparr>url = u, payload = [(''content'', VStr rendered)], timeout = t'\<rparr>]))"
proof (intro conjI impI)
  show "send env net (TelegramBackend tok ids pm dwp t) a rendered calls =
              (Inr (all_succeed net calls (telegram_calls (TelegramBackend tok ids pm dwp t) ids (split_telegram rendered))),
               calls @ telegram_calls (TelegramBackend tok ids pm dwp t) ids (split_telegram rendered))"
    using send_chats_all [of net env "TelegramBackend tok ids pm dwp t" ids "split_telegram rendered" True calls] assms
    by simp
next
  show "length (telegram_calls (TelegramBackend tok ids pm dwp t) ids (split_telegram rendered))
                = length (split_telegram rendered) * length ids"
    by (rule length_telegram_calls)
next
  assume "request_accepts env u"
  then show "send env net (DiscordWebhookBackend u t') a rendered calls =
              (Inr (net calls \<lparr>url = u, payload = [(''content'', VStr rendered)], timeout = t'\<rparr> = None),
               calls @ [\<lparr>url = u, payload = [(''content'', VStr rendered)], timeout = t'\<rparr>])"
    using assms by (simp add: attempt_caught)
qed

text \<open>
  C5 does not hold of the code. The \<^verbatim>\<open>except\<close> clause of both channels is there to turn
  a failed transport call into \<open>False\<close>, but it names four classes and a transport call
  can raise others: \<^verbatim>\<open>resp.read()\<close> and \<^verbatim>\<open>urlopen\<close> raise the exceptions of
  \<^verbatim>\<open>http.client\<close> (\<^verbatim>\<open>IncompleteRead\<close>, \<^verbatim>\<open>BadStatusLine\<close>), which derive from none of the
  four. With two recipients, one chunk and a transport whose calls end in such an
  exception, the Telegram channel's \<^verbatim>\<open>send\<close> raises at the first of its two calls and
  never makes the second. \<^verbatim>\<open>Request\<close> is built before the \<^verbatim>\<open>try\<close>: for a webhook URL
  that it rejects, the Discord channel's \<^verbatim>\<open>send\<close> raises \<^verbatim>\<open>ValueError\<close>.
\<close>

theorem send_propagates_exception:
  "send env0 net_broken telegram0 a0 ''hi'' [] =
     (Inl HTTPException,
      [\<lparr>url = ''https://api.telegram.org/botT/sendMessage'',
        payload = [(''chat_id'', VInt 1), (''text'', VStr ''hi''),
                   (''disable_web_page_preview'', VBool True), (''parse_mode'', VStr ''HTML'')],
        timeout = 8\<rparr>])
   \<and> length (split_telegram ''hi'') * length (chat_ids telegram0) = 2
   \<and> send env0 net_broken (DiscordWebhookBackend ''https://x'' 8) a0 ''hi'' [] =
     (Inl HTTPException, [\<lparr>url = ''https://x'', payload = [(''content'', VStr ''hi'')], timeout = 8\<rparr>])
   \<and> send (env0\<lparr>request_ok := (\<lambda>u. False)\<rparr>) net_up (DiscordWebhookBackend ''x'' 8) a0 ''hi'' [] =
     (Inl ValueError, [])"
  by (simp add: telegram0_def split_telegram_def TELEGRAM_LIMIT_def attempt_def net_broken_def
      caught_def telegram_url_def telegram_payload_def request_accepts_def)

section \<open>Properties of ingestion\<close>




section \<open>Properties of rendering\<close>











section \<open>Properties of the worker\<close>

text \<open>
  C3 does not hold of the code. An alert whose \<^verbatim>\<open>identity\<close> field is the number 5 makes
  \<^verbatim>\<open>_render\<close> raise \<^verbatim>\<open>TypeError\<close> (a string is added to a number); \<^verbatim>\<open>_run\<close> has no handler
  around \<^verbatim>\<open>_render\<close>, so the loop ends there and the alert queued behind it is never
  processed. A state file that holds a JSON list makes \<^verbatim>\<open>_should_send\<close> raise
  \<^verbatim>\<open>AttributeError\<close>, with the same end.
\<close>

theorem worker_dies_on_render_error:
  "render env0 m0 a_bad = Inl TypeError
   \<and> run env0 net_up [(1000, 1001, True), (2000, 2001, True)] (m0\<lparr>q := [a_bad, a0]\<rparr>, w0) = Inl TypeError
   \<and> should_send env0 (m0\<lparr>state := VList []\<rparr>) a0 ''r'' 1000 = Inl AttributeError
   \<and> run env0 net_up [(1000, 1001, True), (2000, 2001, True)] (m0\<lparr>q := [a0, a0], state := VList []\<rparr>, w0)
       = Inl AttributeError"
  by (simp add: a_bad_def a0_def m0_def w0_def render_def head_line_def bracket_def bind_def process_def
      should_send_def Let_def)

section \<open>Properties of the suppression state\<close>

lemma dict_of_iff: "dict_of P v \<longleftrightarrow> (\<exists>d. v = Some (VDict d) \<and> list_all (\<lambda>kv. P (snd kv)) d)"
proof (cases v)
  case None
  then show ?thesis by (simp add: dict_of_def)
next
  case (Some x)
  then show ?thesis by (cases x) (simp_all add: dict_of_def)
qed

lemma wf_stateE:
  assumes "wf_state st"
  obtains kvs le lk cnt where "st = VDict kvs"
    "map_of kvs ''last_event'' = Some (VDict le)" "list_all (\<lambda>kv. is_float (snd kv)) le"
    "map_of kvs ''last_key'' = Some (VDict lk)" "list_all (\<lambda>kv. is_float (snd kv)) lk"
    "map_of kvs ''suppressed'' = Some (VDict cnt)" "list_all (\<lambda>kv. is_int (snd kv)) cnt"
proof (cases st)
  case (VDict kvs)
  with assms show ?thesis
    using that [of kvs] by (auto simp: wf_state_def dict_of_iff)
qed (insert assms, simp_all add: wf_state_def)

lemma wf_stateI:
  assumes "map_of kvs ''last_event'' = Some (VDict le)" "list_all (\<lambda>kv. is_float (snd kv)) le"
    "map_of kvs ''last_key'' = Some (VDict lk)" "list_all (\<lambda>kv. is_float (snd kv)) lk"
    "map_of kvs ''suppressed'' = Some (VDict cnt)" "list_all (\<lambda>kv. is_int (snd kv)) cnt"
  shows "wf_state (VDict kvs)"
  using assms by (simp add: wf_state_def dict_of_def)

lemma list_all_update:
  "list_all (\<lambda>kv. P (snd kv)) d \<Longrightarrow> P v \<Longrightarrow> list_all (\<lambda>kv. P (snd kv)) (AList.update k v d)"
  by (induction d) auto

lemma map_of_typed:
  "list_all (\<lambda>kv. P (snd kv)) d \<Longrightarrow> map_of d k = Some v \<Longrightarrow> P v"
  by (induction d) (auto split: if_splits)

lemma float_lookup:
  assumes "list_all (\<lambda>kv. is_float (snd kv)) d"
  shows "py_float env (py_or (case map_of d k of Some v \<Rightarrow> v | None \<Rightarrow> VInt 0) (VInt 0))
           = Inr (case map_of d k of Some (VFloat x) \<Rightarrow> x | _ \<Rightarrow> 0)"
proof (cases "map_of d k")
  case None
  then show ?thesis by (simp add: py_or_def)
next
  case (Some v)
  with assms have "is_float v" by (rule map_of_typed)
  then obtain x where "v = VFloat x" by (cases v) (auto simp: is_float_def)
  with Some show ?thesis by (simp add: py_or_def)
qed

lemma int_lookup:
  assumes "list_all (\<lambda>kv. is_int (snd kv)) d"
  shows "py_int env (py_or (case map_of d k of Some v \<Rightarrow> v | None \<Rightarrow> VInt 0) (VInt 0))
           = Inr (case map_of d k of Some (VInt n) \<Rightarrow> n | _ \<Rightarrow> 0)"
proof (cases "map_of d k")
  case None
  then show ?thesis by (simp add: py_or_def)
next
  case (Some v)
  with assms have "is_int v" by (rule map_of_typed)
  then obtain n where "v = VInt n" by (cases v) (auto simp: is_int_def)
  with Some show ?thesis by (simp add: py_or_def)
qed

lemma entry_update:
  "entry (VDict (AList.update name (VDict d) kvs)) name' k =
     (if name' = name then map_of d k else entry (VDict kvs) name' k)"
  by (simp add: entry_def update_conv')

lemma bump_suppressed_wf:
  assumes "st = VDict kvs" "map_of kvs ''suppressed'' = Some (VDict cnt)" "list_all (\<lambda>kv. is_int (snd kv)) cnt"
  shows "bump_suppressed env st ev =
           Inr (VDict (AList.update ''suppressed''
                  (VDict (AList.update ev (VInt (suppressed_count st ev + 1)) cnt)) kvs))"
  using assms int_lookup [OF assms(3), of env ev]
  by (simp add: bump_suppressed_def bind_def suppressed_count_def entry_def)

lemma store_timestamp_wf:
  assumes "map_of kvs name = Some (VDict d)"
  shows "store_timestamp (VDict kvs) name k now =
           Inr (VDict (AList.update name (VDict (AList.update k (VFloat now) d)) kvs))"
  using assms by (simp add: store_timestamp_def bind_def)

lemma reset_suppressed_wf:
  assumes "map_of kvs ''suppressed'' = Some (VDict cnt)"
  shows "reset_suppressed (VDict kvs) ev =
           Inr (if ev \<in> fst ` set cnt
                then VDict (AList.update ''suppressed'' (VDict (AList.update ev (VInt 0) cnt)) kvs)
                else VDict kvs)"
  using assms by (simp add: reset_suppressed_def bind_def)

lemma initial_wf: "wf_state initial_state"
  by (simp add: initial_state_def wf_state_def dict_of_def)

lemma initial_entry: "entry initial_state name k = None"
  by (simp add: initial_state_def entry_def)

lemma wf_m0: "wf_state (state m0)"
  by (simp add: m0_def wf_state_def dict_of_def)

lemma cooldowns_m0: "cooldowns m0 = VDict []"
  by (simp add: m0_def)

lemma state_m0: "state m0 = initial_state"
  by (simp add: m0_def initial_state_def)

section \<open>Properties of the decision\<close>

lemma cooldown_for_dict:
  assumes "cooldowns m = VDict c"
  shows "cooldown_for env m ev =
     Inr (case map_of c ev of
            None \<Rightarrow> cooldown_default m
          | Some v \<Rightarrow> if v = VNone then cooldown_default m
                      else (case py_int env v of Inr i \<Rightarrow> i | Inl e \<Rightarrow> cooldown_default m))"
  using assms by (simp add: cooldown_for_def bind_def split: option.splits sum.splits)

lemma should_send_wf:
  assumes "wf_state (state m)" and "cooldown_for env m (event a) = Inr cd"
  shows "should_send env m a r now =
     (if float_sub env now (last_event_sent (state m) (event a)) < real_of_int cd
         \<or> float_sub env now (last_key_sent (state m) (dedupe_key env a r)) < real_of_int (dedupe_seconds m)
      then bind (bump_suppressed env (state m) (event a)) (\<lambda>st. Inr (False, m\<lparr>state := st\<rparr>))
      else Inr (True, m))"
proof -
  from assms(1) obtain kvs le lk cnt where st: "state m = VDict kvs"
    and le: "map_of kvs ''last_event'' = Some (VDict le)" "list_all (\<lambda>kv. is_float (snd kv)) le"
    and lk: "map_of kvs ''last_key'' = Some (VDict lk)" "list_all (\<lambda>kv. is_float (snd kv)) lk"
    by (rule wf_stateE)
  show ?thesis
    using float_lookup [OF le(2), of env "event a"] float_lookup [OF lk(2), of env "dedupe_key env a r"]
    by (simp add: should_send_def Let_def bind_def st le lk assms(2) last_event_sent_def
        last_key_sent_def entry_def)
qed

lemma bump_suppressed_effect:
  assumes "wf_state st"
  shows "\<exists>st'. bump_suppressed env st ev = Inr st'
     \<and> wf_state st'
     \<and> suppressed_count st' ev = suppressed_count st ev + 1
     \<and> (\<forall>e. e \<noteq> ev \<longrightarrow> entry st' ''suppressed'' e = entry st ''suppressed'' e)
     \<and> (\<forall>name k. name \<noteq> ''suppressed'' \<longrightarrow> entry st' name k = entry st name k)"
proof -
  from assms obtain kvs le lk cnt where st: "st = VDict kvs"
    and le: "map_of kvs ''last_event'' = Some (VDict le)" "list_all (\<lambda>kv. is_float (snd kv)) le"
    and lk: "map_of kvs ''last_key'' = Some (VDict lk)" "list_all (\<lambda>kv. is_float (snd kv)) lk"
    and cn: "map_of kvs ''suppressed'' = Some (VDict cnt)" "list_all (\<lambda>kv. is_int (snd kv)) cnt"
    by (rule wf_stateE)
  let ?cnt = "AList.update ev (VInt (suppressed_count st ev + 1)) cnt"
  let ?st = "VDict (AList.update ''suppressed'' (VDict ?cnt) kvs)"
  have b: "bump_suppressed env st ev = Inr ?st"
    using st cn by (rule bump_suppressed_wf)
  have "list_all (\<lambda>kv. is_int (snd kv)) ?cnt"
    using cn(2) by (rule list_all_update) (simp add: is_int_def)
  then have w: "wf_state ?st"
    using le lk by (intro wf_stateI [where le = le and lk = lk and cnt = ?cnt]) (simp_all add: update_conv')
  have c: "suppressed_count ?st ev = suppressed_count st ev + 1"
    by (simp add: suppressed_count_def [of ?st] entry_update update_conv')
  have o: "\<forall>e. e \<noteq> ev \<longrightarrow> entry ?st ''suppressed'' e = entry st ''suppressed'' e"
    by (simp add: entry_update update_conv') (simp add: entry_def st cn)
  have n: "\<forall>name k. name \<noteq> ''suppressed'' \<longrightarrow> entry ?st name k = entry st name k"
    by (simp add: entry_update st)
  from b w c o n show ?thesis by blast
qed

lemma should_send_effect:
  assumes "wf_state (state m)" and "cooldowns m = VDict c"
  shows "\<exists>allowed st'. should_send env m a r now = Inr (allowed, m\<lparr>state := st'\<rparr>)
     \<and> wf_state st'
     \<and> (\<forall>k. entry st' ''last_event'' k = entry (state m) ''last_event'' k)
     \<and> (\<forall>k. entry st' ''last_key'' k = entry (state m) ''last_key'' k)"
proof -
  obtain cd where cf: "cooldown_for env m (event a) = Inr cd"
    using cooldown_for_dict [OF assms(2)] by blast
  note ss = should_send_wf [OF assms(1) cf, of r now]
  obtain st' where b: "bump_suppressed env (state m) (event a) = Inr st'" "wf_state st'"
     "\<forall>name k. name \<noteq> ''suppressed'' \<longrightarrow> entry st' name k = entry (state m) name k"
    using bump_suppressed_effect [OF assms(1), of env "event a"] by blast
  show ?thesis
  proof (cases "float_sub env now (last_event_sent (state m) (event a)) < real_of_int cd
         \<or> float_sub env now (last_key_sent (state m) (dedupe_key env a r)) < real_of_int (dedupe_seconds m)")
    case True
    with ss b(1) have "should_send env m a r now = Inr (False, m\<lparr>state := st'\<rparr>)"
      by (simp add: bind_def)
    with b(2,3) show ?thesis by auto
  next
    case False
    with ss have "should_send env m a r now = Inr (True, m\<lparr>state := state m\<rparr>)"
      by simp
    with assms(1) show ?thesis by blast
  qed
qed

text \<open>
  C1: on a well-formed state and a cooldown table that is a dict, the decision uses the
  key \<^verbatim>\<open>event:sha1(rendered)\<close> and the cooldown of the event (its entry of the table,
  through \<^verbatim>\<open>int()\<close>, else the default). When the time since the event was last sent is
  below the cooldown, or else the time since the key was last sent is below the dedupe
  window, the answer is to suppress and the event's counter is one more, with every
  other counter and every timestamp as before. Otherwise the answer is to allow and the
  manager, so the state, is unchanged. The time since a timestamp is \<^verbatim>\<open>now - last\<close> as
  the program computes it, the float that the exact difference rounds to; the
  comparison of that float with the integer cooldown or window is exact.
\<close>

theorem should_send_decision:
  assumes "wf_state (state m)" and "cooldowns m = VDict c"
  shows "\<exists>cd.
     cooldown_for env m (event a) = Inr cd
     \<and> cd = (case map_of c (event a) of
               None \<Rightarrow> cooldown_default m
             | Some v \<Rightarrow> if v = VNone then cooldown_default m
                         else (case py_int env v of Inr i \<Rightarrow> i | Inl e \<Rightarrow> cooldown_default m))
     \<and> dedupe_key env a r = event a @ '':'' @ sha1 env r
     \<and> (if float_sub env now (last_event_sent (state m) (event a)) < real_of_int cd
           \<or> float_sub env now (last_key_sent (state m) (dedupe_key env a r)) < real_of_int (dedupe_seconds m)
        then \<exists>st'. should_send env m a r now = Inr (False, m\<lparr>state := st'\<rparr>)
               \<and> suppressed_count st' (event a) = suppressed_count (state m) (event a) + 1
               \<and> (\<forall>e. e \<noteq> event a \<longrightarrow> suppressed_count st' e = suppressed_count (state m) e)
               \<and> (\<forall>k. entry st' ''last_event'' k = entry (state m) ''last_event'' k)
               \<and> (\<forall>k. entry st' ''last_key'' k = entry (state m) ''last_key'' k)
               \<and> wf_state st'
        else should_send env m a r now = Inr (True, m))"
proof -
  define cd where "cd = (case map_of c (event a) of
               None \<Rightarrow> cooldown_default m
             | Some v \<Rightarrow> if v = VNone then cooldown_default m
                         else (case py_int env v of Inr i \<Rightarrow> i | Inl e \<Rightarrow> cooldown_default m))"
  have cf: "cooldown_for env m (event a) = Inr cd"
    unfolding cd_def using assms(2) by (rule cooldown_for_dict)
  note ss = should_send_wf [OF assms(1) cf, of r now]
  obtain st' where b: "bump_suppressed env (state m) (event a) = Inr st'" "wf_state st'"
     "suppressed_count st' (event a) = suppressed_count (state m) (event a) + 1"
     "\<forall>e. e \<noteq> event a \<longrightarrow> entry st' ''suppressed'' e = entry (state m) ''suppressed'' e"
     "\<forall>name k. name \<noteq> ''suppressed'' \<longrightarrow> entry st' name k = entry (state m) name k"
    using bump_suppressed_effect [OF assms(1), of env "event a"] by blast
  have "\<forall>e. e \<noteq> event a \<longrightarrow> suppressed_count st' e = suppressed_count (state m) e"
    using b(4) by (simp add: suppressed_count_def)
  moreover have "\<forall>k. entry st' ''last_event'' k = entry (state m) ''last_event'' k"
    "\<forall>k. entry st' ''last_key'' k = entry (state m) ''last_key'' k"
    using b(5) by simp_all
  ultimately have s: "float_sub env now (last_event_sent (state m) (event a)) < real_of_int cd
           \<or> float_sub env now (last_key_sent (state m) (dedupe_key env a r)) < real_of_int (dedupe_seconds m) \<Longrightarrow>
     \<exists>st'. should_send env m a r now = Inr (False, m\<lparr>state := st'\<rparr>)
               \<and> suppressed_count st' (event a) = suppressed_count (state m) (event a) + 1
               \<and> (\<forall>e. e \<noteq> event a \<longrightarrow> suppressed_count st' e = suppressed_count (state m) e)
               \<and> (\<forall>k. entry st' ''last_event'' k = entry (state m) ''last_event'' k)
               \<and> (\<forall>k. entry st' ''last_key'' k = entry (state m) ''last_key'' k)
               \<and> wf_state st'"
    using ss b(1,2,3) by (intro exI [of _ st']) (simp add: bind_def)
  have "dedupe_key env a r = event a @ '':'' @ sha1 env r"
    by (simp add: dedupe_key_def)
  with cf cd_def s ss show ?thesis
    by (intro exI [of _ cd]) (simp split: if_splits)
qed

theorem should_send_decision_witness:
  "wf_state (state m0) \<and> cooldowns m0 = VDict []
   \<and> should_send env0 m0 a0 r0 1000 = Inr (True, m0)
   \<and> should_send env0 (m0\<lparr>state := marked0\<rparr>) a0 r0 1002 = Inr (False, m0\<lparr>state := suppressed0\<rparr>)
   \<and> f_9003 - f_03 < 900 \<and> float_sub env_near f_9003 f_03 = 900
   \<and> should_send env_near (m0\<lparr>state := sent_03\<rparr>) a0 r0 f_9003 = Inr (True, m0\<lparr>state := sent_03\<rparr>)"
proof -
  have n: "f_9003 - f_03 < 900" "float_sub env_near f_9003 f_03 = 900" "float_sub env_near f_9003 0 = f_9003"
    "\<not> f_9003 < 300"
    by (simp_all add: f_9003_def f_03_def float_sub_def env_near_def env0_def)
  have w3: "wf_state (state (m0\<lparr>state := sent_03\<rparr>))" "cooldowns (m0\<lparr>state := sent_03\<rparr>) = VDict []"
    by (simp_all add: wf_state_def dict_of_def entry_def sent_03_def is_float_def is_int_def m0_def)
  have c3: "last_event_sent sent_03 (event a0) = f_03" "last_key_sent sent_03 k = 0"
    "cooldown_default m0 = 900" "dedupe_seconds m0 = 300" for k
    by (simp_all add: last_event_sent_def last_key_sent_def entry_def sent_03_def a0_def m0_def)
  from should_send_decision [OF w3, of env_near a0 r0 f_9003]
  have 3: "should_send env_near (m0\<lparr>state := sent_03\<rparr>) a0 r0 f_9003 = Inr (True, m0\<lparr>state := sent_03\<rparr>)"
    by (auto simp: c3 n)
  have cf: "cooldown_for env0 m0 (event a0) = Inr 900"
    by (simp add: cooldown_for_def m0_def bind_def)
  have c: "last_event_sent (state m0) (event a0) = 0" "last_key_sent (state m0) (dedupe_key env0 a0 r0) = 0"
    "dedupe_seconds m0 = 300"
    by (simp_all add: last_event_sent_def last_key_sent_def entry_def m0_def)
  from should_send_decision [OF wf_m0 cooldowns_m0, of env0 a0 r0 1000]
  obtain cd where "cooldown_for env0 m0 (event a0) = Inr cd"
    and d: "if float_sub env0 1000 (last_event_sent (state m0) (event a0)) < real_of_int cd
           \<or> float_sub env0 1000 (last_key_sent (state m0) (dedupe_key env0 a0 r0)) < real_of_int (dedupe_seconds m0)
        then \<exists>st'. should_send env0 m0 a0 r0 1000 = Inr (False, m0\<lparr>state := st'\<rparr>)
               \<and> suppressed_count st' (event a0) = suppressed_count (state m0) (event a0) + 1
               \<and> (\<forall>e. e \<noteq> event a0 \<longrightarrow> suppressed_count st' e = suppressed_count (state m0) e)
               \<and> (\<forall>k. entry st' ''last_event'' k = entry (state m0) ''last_event'' k)
               \<and> (\<forall>k. entry st' ''last_key'' k = entry (state m0) ''last_key'' k)
               \<and> wf_state st'
        else should_send env0 m0 a0 r0 1000 = Inr (True, m0)"
    by blast
  with cf have "cd = 900" by simp
  with d have 1: "should_send env0 m0 a0 r0 1000 = Inr (True, m0)"
    by (simp add: c)
  have 2: "should_send env0 (m0\<lparr>state := marked0\<rparr>) a0 r0 1002 = Inr (False, m0\<lparr>state := suppressed0\<rparr>)"
    by (simp add: should_send_def Let_def bind_def m0_def a0_def py_or_def cooldown_for_def
      marked0_def suppressed0_def dedupe_key_def bump_suppressed_def)
  from wf_m0 cooldowns_m0 1 2 3 n(1,2) show ?thesis by simp
qed

section \<open>Properties of the fan-out and the marking\<close>



lemma mark_state_effect:
  assumes "wf_state st"
  shows "\<exists>st'. mark_state env st a r now = Inr st'
     \<and> wf_state st'
     \<and> entry st' ''last_event'' (event a) = Some (VFloat now)
     \<and> entry st' ''last_key'' (dedupe_key env a r) = Some (VFloat now)
     \<and> (\<forall>k. k \<noteq> event a \<longrightarrow> entry st' ''last_event'' k = entry st ''last_event'' k)
     \<and> (\<forall>k. k \<noteq> dedupe_key env a r \<longrightarrow> entry st' ''last_key'' k = entry st ''last_key'' k)
     \<and> suppressed_count st' (event a) = 0
     \<and> (\<forall>e. e \<noteq> event a \<longrightarrow> entry st' ''suppressed'' e = entry st ''suppressed'' e)"
proof -
  from assms obtain kvs le lk cnt where st: "st = VDict kvs"
    and le: "map_of kvs ''last_event'' = Some (VDict le)" "list_all (\<lambda>kv. is_float (snd kv)) le"
    and lk: "map_of kvs ''last_key'' = Some (VDict lk)" "list_all (\<lambda>kv. is_float (snd kv)) lk"
    and cn: "map_of kvs ''suppressed'' = Some (VDict cnt)" "list_all (\<lambda>kv. is_int (snd kv)) cnt"
    by (rule wf_stateE)
  let ?key = "dedupe_key env a r"
  let ?le = "AList.update (event a) (VFloat now) le"
  let ?lk = "AList.update ?key (VFloat now) lk"
  let ?kvs1 = "AList.update ''last_event'' (VDict ?le) kvs"
  let ?kvs2 = "AList.update ''last_key'' (VDict ?lk) ?kvs1"
  let ?cnt = "AList.update (event a) (VInt 0) cnt"
  define st3 where "st3 = (if event a \<in> fst ` set cnt
              then VDict (AList.update ''suppressed'' (VDict ?cnt) ?kvs2) else VDict ?kvs2)"
  have 1: "store_timestamp st ''last_event'' (event a) now = Inr (VDict ?kvs1)"
    unfolding st using le(1) by (rule store_timestamp_wf)
  have "map_of ?kvs1 ''last_key'' = Some (VDict lk)"
    using lk(1) by (simp add: update_conv')
  then have 2: "store_timestamp (VDict ?kvs1) ''last_key'' ?key now = Inr (VDict ?kvs2)"
    by (rule store_timestamp_wf)
  have c2: "map_of ?kvs2 ''suppressed'' = Some (VDict cnt)"
    using cn(1) by (simp add: update_conv')
  then have 3: "reset_suppressed (VDict ?kvs2) (event a) = Inr st3"
    unfolding st3_def by (rule reset_suppressed_wf)
  have m: "mark_state env st a r now = Inr st3"
    by (simp only: mark_state_def 1 2 3 bind_def sum.case)
  have fl: "list_all (\<lambda>kv. is_float (snd kv)) ?le" "list_all (\<lambda>kv. is_float (snd kv)) ?lk"
    using le(2) lk(2) by (auto intro!: list_all_update simp: is_float_def)
  have il: "list_all (\<lambda>kv. is_int (snd kv)) ?cnt"
    using cn(2) by (auto intro!: list_all_update simp: is_int_def)
  have w: "wf_state st3"
  proof (cases "event a \<in> fst ` set cnt")
    case True
    then show ?thesis
      unfolding st3_def using fl il by (auto intro!: wf_stateI [where le = ?le and lk = ?lk and cnt = ?cnt] simp: update_conv')
  next
    case False
    then show ?thesis
      unfolding st3_def using fl cn by (auto intro!: wf_stateI [where le = ?le and lk = ?lk and cnt = cnt] simp: update_conv')
  qed
  have e1: "entry st3 ''last_event'' k = (if k = event a then Some (VFloat now) else entry st ''last_event'' k)" for k
    unfolding st3_def by (simp add: entry_update update_conv') (simp add: entry_def st le)
  have e2: "entry st3 ''last_key'' k = (if k = ?key then Some (VFloat now) else entry st ''last_key'' k)" for k
    unfolding st3_def by (simp add: entry_update update_conv') (simp add: entry_def st lk)
  have e3: "entry st3 ''suppressed'' e = (if e = event a \<and> event a \<in> fst ` set cnt then Some (VInt 0) else entry st ''suppressed'' e)" for e
    unfolding st3_def by (simp add: entry_update update_conv') (simp add: entry_def st cn)
  have "event a \<notin> fst ` set cnt \<Longrightarrow> entry st ''suppressed'' (event a) = None"
    by (simp add: entry_def st cn map_of_eq_None_iff)
  then have c: "suppressed_count st3 (event a) = 0"
    unfolding suppressed_count_def e3 by (cases "event a \<in> fst ` set cnt") simp_all
  show ?thesis
    using m w c e1 e2 e3 by (intro exI [of _ st3]) simp
qed






section \<open>Properties of the timestamps\<close>

lemma never_backward_refl: "never_backward st st"
  by (auto simp: never_backward_def)

lemma never_backward_trans:
  "never_backward s1 s2 \<Longrightarrow> never_backward s2 s3 \<Longrightarrow> never_backward s1 s3"
  unfolding never_backward_def by (meson order_trans)

lemma not_after_mono: "not_after c st \<Longrightarrow> c \<le> c' \<Longrightarrow> not_after c' st"
  unfolding not_after_def by (meson order_trans)

lemma apply_op_step:
  assumes wf: "wf_state (state m)" and cd: "cooldowns m = VDict c"
    and na: "not_after t (state m)" and le: "t \<le> now"
  shows "\<exists>m' d'. apply_op env (now, x) (m, d) = Inr (m', d')
     \<and> wf_state (state m') \<and> cooldowns m' = VDict c
     \<and> not_after now (state m') \<and> never_backward (state m) (state m')"
proof (cases x)
  case (Decide a r)
  obtain allowed st' where s: "should_send env m a r now = Inr (allowed, m\<lparr>state := st'\<rparr>)"
    and w: "wf_state st'"
    and e: "\<forall>k. entry st' ''last_event'' k = entry (state m) ''last_event'' k"
           "\<forall>k. entry st' ''last_key'' k = entry (state m) ''last_key'' k"
    using should_send_effect [OF wf cd, of env a r now] by blast
  have "not_after now st'"
    using not_after_mono [OF na le] e by (auto simp: not_after_def is_ts_def)
  moreover have "never_backward (state m) st'"
    using e by (auto simp: never_backward_def is_ts_def)
  ultimately show ?thesis
    using s w cd by (simp add: Decide bind_def)
next
  case (MarkSent a r write_ok)
  obtain st' where ms: "mark_state env (state m) a r now = Inr st'"
    and w: "wf_state st'"
    and e: "entry st' ''last_event'' (event a) = Some (VFloat now)"
        "entry st' ''last_key'' (dedupe_key env a r) = Some (VFloat now)"
        "\<forall>k. k \<noteq> event a \<longrightarrow> entry st' ''last_event'' k = entry (state m) ''last_event'' k"
        "\<forall>k. k \<noteq> dedupe_key env a r \<longrightarrow> entry st' ''last_key'' k = entry (state m) ''last_key'' k"
    using mark_state_effect [OF wf, of env a r now] by blast
  have old: "\<And>name k x. is_ts name \<Longrightarrow> entry (state m) name k = Some (VFloat x) \<Longrightarrow> x \<le> now"
    using not_after_mono [OF na le] by (auto simp: not_after_def)
  have "not_after now st'"
    unfolding not_after_def
  proof (intro allI impI)
    fix name k x
    assume n: "is_ts name" and x: "entry st' name k = Some (VFloat x)"
    show "x \<le> now"
    proof (cases "(name = ''last_event'' \<and> k = event a) \<or> (name = ''last_key'' \<and> k = dedupe_key env a r)")
      case True
      with e(1,2) x show ?thesis by auto
    next
      case False
      with n e(3,4) have "entry st' name k = entry (state m) name k"
        by (auto simp: is_ts_def)
      with x old [OF n] show ?thesis by simp
    qed
  qed
  moreover have "never_backward (state m) st'"
    unfolding never_backward_def
  proof (intro allI impI)
    fix name k x
    assume n: "is_ts name" and x: "entry (state m) name k = Some (VFloat x)"
    show "\<exists>y. entry st' name k = Some (VFloat y) \<and> x \<le> y"
    proof (cases "(name = ''last_event'' \<and> k = event a) \<or> (name = ''last_key'' \<and> k = dedupe_key env a r)")
      case True
      with e(1,2) old [OF n x] show ?thesis by auto
    next
      case False
      with n e(3,4) have "entry st' name k = entry (state m) name k"
        by (auto simp: is_ts_def)
      with x show ?thesis by simp
    qed
  qed
  ultimately show ?thesis
    using ms w cd by (simp add: MarkSent mark_sent_def bind_def)
qed

lemma run_ops_inv:
  assumes "wf_state (state m)" and "cooldowns m = VDict c"
    and "not_after t (state m)" and "sorted (t # map fst ops)"
  shows "\<exists>m' d' t'. run_ops env ops (m, d) = Inr (m', d')
     \<and> wf_state (state m') \<and> cooldowns m' = VDict c
     \<and> not_after t' (state m') \<and> t' = last (t # map fst ops)
     \<and> never_backward (state m) (state m')"
  using assms
proof (induction ops arbitrary: m d t)
  case Nil
  then show ?case by (simp add: never_backward_refl)
next
  case (Cons x ops)
  obtain now opn where x: "x = (now, opn)" by (cases x)
  from Cons.prems(4) have le: "t \<le> now" and s: "sorted (now # map fst ops)"
    by (simp_all add: x)
  from apply_op_step [OF Cons.prems(1,2,3) le, of env opn d]
  obtain m1 d1 where a: "apply_op env (now, opn) (m, d) = Inr (m1, d1)"
    and i: "wf_state (state m1)" "cooldowns m1 = VDict c" "not_after now (state m1)"
    and nb: "never_backward (state m) (state m1)"
    by blast
  from Cons.IH [OF i s, of d1]
  obtain m' d' where r: "run_ops env ops (m1, d1) = Inr (m', d')"
    and i': "wf_state (state m')" "cooldowns m' = VDict c" "not_after (last (now # map fst ops)) (state m')"
    and nb': "never_backward (state m1) (state m')"
    by blast
  have "run_ops env (x # ops) (m, d) = Inr (m', d')"
    by (simp add: x a r bind_def)
  moreover have "never_backward (state m) (state m')"
    using nb nb' by (rule never_backward_trans)
  ultimately show ?case
    using i' by (simp add: x)
qed

lemma run_ops_append:
  "run_ops env (xs @ ys) md = bind (run_ops env xs md) (run_ops env ys)"
proof (induction xs arbitrary: md)
  case Nil
  show ?case by (simp add: bind_def)
next
  case (Cons x xs)
  show ?case
    by (cases "apply_op env x md") (simp_all add: bind_def Cons.IH)
qed

lemma sorted_last_append:
  assumes "sorted (xs @ ys)" and "xs \<noteq> []"
  shows "sorted (last xs # ys)"
  using assms by (auto simp: sorted_append)

text \<open>
  C8: from the initial state, any run of decisions and markings whose clock reads do
  not decrease returns, and between any two points of the run no timestamp of
  \<^verbatim>\<open>last_event\<close> or \<^verbatim>\<open>last_key\<close> moves backward: a marking writes a time that is not
  before the one it replaces. (The cooldown table is a dict; nothing is needed of the
  cooldowns or the dedupe window.)
\<close>

theorem timestamps_monotonic:
  assumes "state m = initial_state" and "cooldowns m = VDict c"
    and "sorted (map fst (ops1 @ ops2))"
  shows "\<exists>m1 d1 m2 d2.
     run_ops env ops1 (m, d) = Inr (m1, d1)
     \<and> run_ops env ops2 (m1, d1) = Inr (m2, d2)
     \<and> run_ops env (ops1 @ ops2) (m, d) = Inr (m2, d2)
     \<and> never_backward (state m1) (state m2)"
proof -
  have wf: "wf_state (state m)"
    by (simp add: assms(1) initial_wf)
  have na: "not_after t (state m)" for t
    by (simp add: not_after_def assms(1) initial_entry)
  have s1: "sorted (map fst ops1)" and s2: "sorted (map fst ops2)"
    using assms(3) by (simp_all add: sorted_append)
  have "\<exists>t. sorted (t # map fst ops1)"
    using s1 by (cases ops1) auto
  then obtain t where t: "sorted (t # map fst ops1)" ..
  from run_ops_inv [OF wf assms(2) na t, of env d]
  obtain m1 d1 where r1: "run_ops env ops1 (m, d) = Inr (m1, d1)"
    and i1: "wf_state (state m1)" "cooldowns m1 = VDict c"
      "not_after (last (t # map fst ops1)) (state m1)"
    by blast
  have "\<exists>t'. not_after t' (state m1) \<and> sorted (t' # map fst ops2)"
  proof (cases "ops1 = []")
    case True
    with r1 have "state m1 = state m" by simp
    then have "not_after t' (state m1)" for t'
      by (simp add: na)
    moreover have "\<exists>t'. sorted (t' # map fst ops2)"
      using s2 by (cases ops2) auto
    ultimately show ?thesis by blast
  next
    case False
    then have "last (t # map fst ops1) = last (map fst ops1)" by simp
    moreover have "sorted (last (map fst ops1) # map fst ops2)"
      using assms(3) False by (intro sorted_last_append) auto
    ultimately show ?thesis using i1(3) by auto
  qed
  then obtain t' where t': "not_after t' (state m1)" "sorted (t' # map fst ops2)" by blast
  from run_ops_inv [OF i1(1,2) t', of env d1]
  obtain m2 d2 where r2: "run_ops env ops2 (m1, d1) = Inr (m2, d2)"
    and nb: "never_backward (state m1) (state m2)"
    by blast
  have "run_ops env (ops1 @ ops2) (m, d) = Inr (m2, d2)"
    by (simp add: run_ops_append r1 r2 bind_def)
  with r1 r2 nb show ?thesis by blast
qed

theorem timestamps_monotonic_witness:
  "state m0 = initial_state \<and> cooldowns m0 = VDict []
   \<and> sorted (map fst ([(10::real, MarkSent a0 ''r'' True)] @ [(20, Decide a0 ''r''), (30, MarkSent a0 ''r'' False)]))
   \<and> run_ops env0 [(10, MarkSent a0 ''r'' True)] (m0, None) = Inr (m0\<lparr>state := s10\<rparr>, Some s10)
   \<and> run_ops env0 [(20, Decide a0 ''r''), (30, MarkSent a0 ''r'' False)] (m0\<lparr>state := s10\<rparr>, Some s10)
        = Inr (m0\<lparr>state := s30\<rparr>, Some s10)
   \<and> never_backward s10 s30"
proof -
  have s: "sorted (map fst ([(10::real, MarkSent a0 ''r'' True)] @ [(20, Decide a0 ''r''), (30, MarkSent a0 ''r'' False)]))"
    by simp
  have e1: "run_ops env0 [(10, MarkSent a0 ''r'' True)] (m0, None) = Inr (m0\<lparr>state := s10\<rparr>, Some s10)"
    by (simp add: bind_def mark_sent_def mark_state_def store_timestamp_def reset_suppressed_def
        m0_def a0_def dedupe_key_def s10_def save_state_def)
  have e2: "run_ops env0 [(20, Decide a0 ''r''), (30, MarkSent a0 ''r'' False)] (m0\<lparr>state := s10\<rparr>, Some s10)
        = Inr (m0\<lparr>state := s30\<rparr>, Some s10)"
    by (simp add: bind_def mark_sent_def mark_state_def store_timestamp_def reset_suppressed_def
        m0_def a0_def dedupe_key_def s10_def s30_def save_state_def should_send_def Let_def py_or_def
        cooldown_for_def bump_suppressed_def)
  from timestamps_monotonic [OF state_m0 cooldowns_m0 s, of env0 None]
  obtain m1 d1 m2 d2 where "run_ops env0 [(10, MarkSent a0 ''r'' True)] (m0, None) = Inr (m1, d1)"
    and "run_ops env0 [(20, Decide a0 ''r''), (30, MarkSent a0 ''r'' False)] (m1, d1) = Inr (m2, d2)"
    and nb: "never_backward (state m1) (state m2)"
    by blast
  with e1 e2 have "m1 = m0\<lparr>state := s10\<rparr>" "d1 = Some s10" "m2 = m0\<lparr>state := s30\<rparr>"
    by auto
  with nb have "never_backward s10 s30" by simp
  with state_m0 cooldowns_m0 s e1 e2 show ?thesis by blast
qed

section \<open>Properties of construction\<close>

lemma int_like_py_int: "int_like env v \<Longrightarrow> \<exists>i. py_int env v = Inr i"
  by (cases v) (auto simp: int_like_def)

lemma dict_get_setting: "is_dict sec \<Longrightarrow> dict_get sec k d = Inr (setting sec k d)"
  by (cases sec) (simp_all add: is_dict_def setting_def)

lemma int_like_val: "int_like env v \<Longrightarrow> py_int env v = Inr (int_val env v)"
  using int_like_py_int [of env v] by (auto simp: int_val_def)

lemma collect_Inr:
  assumes "\<And>x. x \<in> set xs \<Longrightarrow> f x = Inr (g x)"
  shows "collect f xs = Inr (map g xs)"
  using assms by (induction xs) (simp_all add: bind_def)

lemma parse_chat_ids_recipients:
  assumes "chat_ids_ok env v"
  shows "parse_chat_ids env v = Inr (recipients env v)"
proof (cases v)
  case (VList xs)
  with assms have "\<And>x. x \<in> set xs \<Longrightarrow> py_int env x = Inr (int_val env x)"
    by (auto simp: chat_ids_ok_def list_all_iff intro: int_like_val)
  then show ?thesis
    unfolding VList by (simp add: collect_Inr recipients_def)
next
  case (VStr s)
  show ?thesis
  proof (cases "CHR '','' \<in> set s")
    case True
    with assms VStr have "\<And>x. x \<in> set (filter (\<lambda>x. strip x \<noteq> []) (split_on (CHR '','') s))
        \<Longrightarrow> py_int env (VStr (strip x)) = Inr (int_val env (VStr (strip x)))"
      by (auto simp: chat_ids_ok_def pieces_def list_all_iff int_val_def)
    then have "collect (\<lambda>x. py_int env (VStr (strip x))) (filter (\<lambda>x. strip x \<noteq> []) (split_on (CHR '','') s))
        = Inr (map (\<lambda>x. int_val env (VStr (strip x))) (filter (\<lambda>x. strip x \<noteq> []) (split_on (CHR '','') s)))"
      by (rule collect_Inr)
    with True show ?thesis
      unfolding VStr by (simp add: recipients_def pieces_def comp_def)
  next
    case False
    with assms VStr show ?thesis
      by (auto simp: chat_ids_ok_def bind_def recipients_def int_val_def)
  qed
qed (simp_all add: bind_def recipients_def)

lemma os_getenv_credential:
  "is_str (setting sec key (VStr dflt)) \<Longrightarrow>
   os_getenv env (setting sec key (VStr dflt)) [] = Inr (credential env sec key dflt)"
  by (cases "setting sec key (VStr dflt)") (simp_all add: is_str_def os_getenv_def credential_def)

lemma bind_Inr: "bind (Inr v) f = f v"
  by (simp add: bind_def)

lemma if_Inr_or: "(if truthy a then Inr a else Inr b) = Inr (py_or a b)"
  by (simp add: py_or_def)

lemma init_telegram_channel:
  assumes "is_dict acfg" and "telegram_ok env acfg" and "listed acfg ''telegram''"
  shows "init_telegram env acfg = Inr (telegram_channel env acfg)"
proof -
  let ?tcfg = "sub_cfg acfg ''telegram''"
  let ?tok = "credential env ?tcfg ''token_env'' ''RUST_WD_TELEGRAM_TOKEN''"
  let ?ids = "recipients env (chat_ids_setting ?tcfg)"
  from assms(2) have d: "is_dict ?tcfg"
    and n: "is_str (setting ?tcfg ''token_env'' (VStr ''RUST_WD_TELEGRAM_TOKEN''))"
    and c: "chat_ids_ok env (chat_ids_setting ?tcfg)"
    and t: "telegram_channel env acfg \<noteq> [] \<Longrightarrow> int_like env (setting ?tcfg ''timeout_s'' (VInt 8))"
    by (simp_all add: telegram_ok_def Let_def)
  have g: "dict_get acfg ''telegram'' (VDict []) = Inr (setting acfg ''telegram'' (VDict []))"
    using assms(1) by (rule dict_get_setting)
  have dg: "\<And>k dflt. dict_get ?tcfg k dflt = Inr (setting ?tcfg k dflt)"
    using d by (rule dict_get_setting)
  have tc: "py_or (setting acfg ''telegram'' (VDict [])) (VDict []) = ?tcfg"
    by (simp add: sub_cfg_def)
  have ch: "py_or (setting ?tcfg ''chat_ids'' VNone) (setting ?tcfg ''chat_id'' VNone) = chat_ids_setting ?tcfg"
    by (simp add: chat_ids_setting_def)
  have tok: "os_getenv env (setting ?tcfg ''token_env'' (VStr ''RUST_WD_TELEGRAM_TOKEN'')) [] = Inr ?tok"
    using n by (rule os_getenv_credential)
  have ids: "parse_chat_ids env (chat_ids_setting ?tcfg) = Inr ?ids"
    using c by (rule parse_chat_ids_recipients)
  have 1: "init_telegram env acfg =
      (if ?tok \<noteq> [] \<and> ?ids \<noteq> [] then
         bind (py_int env (setting ?tcfg ''timeout_s'' (VInt 8))) (\<lambda>ti.
           Inr [TelegramBackend ?tok ?ids (setting ?tcfg ''parse_mode'' (VStr ''HTML''))
                  (truthy (setting ?tcfg ''disable_web_preview'' (VBool True))) ti])
       else Inr [])"
    unfolding init_telegram_def
    by (simp only: g bind_Inr Let_def tc dg tok if_Inr_or ch ids)
  show ?thesis
  proof (cases "?tok \<noteq> [] \<and> ?ids \<noteq> []")
    case True
    with assms(3) have "telegram_channel env acfg \<noteq> []"
      by (simp add: telegram_channel_def Let_def)
    then have "py_int env (setting ?tcfg ''timeout_s'' (VInt 8)) = Inr (int_val env (setting ?tcfg ''timeout_s'' (VInt 8)))"
      using t by (intro int_like_val) simp
    with True assms(3) show ?thesis
      by (simp add: 1 bind_Inr telegram_channel_def Let_def)
  next
    case False
    then show ?thesis
      by (auto simp: 1 telegram_channel_def Let_def)
  qed
qed

lemma init_discord_channel:
  assumes "is_dict acfg" and "discord_ok env acfg" and "listed acfg ''discord''"
  shows "init_discord env acfg = Inr (discord_channel env acfg)"
proof -
  let ?dcfg = "sub_cfg acfg ''discord''"
  let ?hook = "credential env ?dcfg ''webhook_env'' ''RUST_WD_DISCORD_WEBHOOK''"
  from assms(2) have d: "is_dict ?dcfg"
    and n: "is_str (setting ?dcfg ''webhook_env'' (VStr ''RUST_WD_DISCORD_WEBHOOK''))"
    and t: "discord_channel env acfg \<noteq> [] \<Longrightarrow> int_like env (setting ?dcfg ''timeout_s'' (VInt 8))"
    by (simp_all add: discord_ok_def Let_def)
  have g: "dict_get acfg ''discord'' (VDict []) = Inr (setting acfg ''discord'' (VDict []))"
    using assms(1) by (rule dict_get_setting)
  have dg: "\<And>k dflt. dict_get ?dcfg k dflt = Inr (setting ?dcfg k dflt)"
    using d by (rule dict_get_setting)
  have tc: "py_or (setting acfg ''discord'' (VDict [])) (VDict []) = ?dcfg"
    by (simp add: sub_cfg_def)
  have hook: "os_getenv env (setting ?dcfg ''webhook_env'' (VStr ''RUST_WD_DISCORD_WEBHOOK'')) [] = Inr ?hook"
    using n by (rule os_getenv_credential)
  have 1: "init_discord env acfg =
      (if ?hook \<noteq> [] then
         bind (py_int env (setting ?dcfg ''timeout_s'' (VInt 8))) (\<lambda>ti. Inr [DiscordWebhookBackend ?hook ti])
       else Inr [])"
    unfolding init_discord_def
    by (simp only: g bind_Inr Let_def tc dg hook)
  show ?thesis
  proof (cases "?hook \<noteq> []")
    case True
    with assms(3) have "discord_channel env acfg \<noteq> []"
      by (simp add: discord_channel_def Let_def)
    then have "py_int env (setting ?dcfg ''timeout_s'' (VInt 8)) = Inr (int_val env (setting ?dcfg ''timeout_s'' (VInt 8)))"
      using t by (intro int_like_val) simp
    with True assms(3) show ?thesis
      by (simp add: 1 bind_Inr discord_channel_def Let_def)
  next
    case False
    then show ?thesis
      by (auto simp: 1 discord_channel_def Let_def)
  qed
qed

lemma channel_not_listed:
  "\<not> listed acfg ''telegram'' \<Longrightarrow> telegram_channel env acfg = []"
  "\<not> listed acfg ''discord'' \<Longrightarrow> discord_channel env acfg = []"
  by (simp_all add: telegram_channel_def discord_channel_def Let_def)

lemma backend_names_total:
  assumes "is_dict acfg" and "iterable (backends_setting acfg)"
  shows "\<exists>names. backend_names acfg = Inr names \<and> (\<forall>name. name \<in> set names \<longleftrightarrow> listed acfg name)"
proof -
  obtain xs where xs: "py_iter (backends_setting acfg) = Inr xs"
    using assms(2) by (cases "backends_setting acfg") (simp_all add: iterable_def)
  have "backend_names acfg = Inr (map (\<lambda>b. lower (strip b)) (strs xs))"
    using xs by (simp add: backend_names_def dict_get_setting [OF assms(1)] bind_def backends_setting_def)
  then show ?thesis
    by (simp add: listed_def xs)
qed

lemma init_backends_channels:
  assumes "is_dict (cfg m)" and "iterable (backends_setting (cfg m))"
    and "listed (cfg m) ''telegram'' \<Longrightarrow> telegram_ok env (cfg m)"
    and "listed (cfg m) ''discord'' \<Longrightarrow> discord_ok env (cfg m)"
    and "backends m = []"
  shows "init_backends env m logged =
           Inr (m\<lparr>backends := channels env (cfg m), enabled := enabled m \<and> channels env (cfg m) \<noteq> []\<rparr>,
                if channels env (cfg m) = [] then log_msg m ''WARN''
                   ''ALERTS: enabled, but no usable backends configured -> alerts disabled'' logged
                else logged)"
proof -
  obtain names where names: "backend_names (cfg m) = Inr names"
    and l: "\<And>name. name \<in> set names \<longleftrightarrow> listed (cfg m) name"
    using backend_names_total [OF assms(1,2)] by blast
  have tb: "(if ''telegram'' \<in> set names then init_telegram env (cfg m) else Inr []) = Inr (telegram_channel env (cfg m))"
    using init_telegram_channel [OF assms(1), of env] assms(3) l channel_not_listed(1) [of "cfg m" env]
    by auto
  have db: "(if ''discord'' \<in> set names then init_discord env (cfg m) else Inr []) = Inr (discord_channel env (cfg m))"
    using init_discord_channel [OF assms(1), of env] assms(4) l channel_not_listed(2) [of "cfg m" env]
    by auto
  show ?thesis
    unfolding init_backends_def channels_def
    by (simp only: names tb db bind_Inr Let_def assms(5))
       (auto simp: log_msg_def split: option.splits)
qed

lemma channels_empty:
  "channels env acfg = [] \<longleftrightarrow>
     (listed acfg ''telegram'' \<longrightarrow>
        credential env (sub_cfg acfg ''telegram'') ''token_env'' ''RUST_WD_TELEGRAM_TOKEN'' = []
        \<or> recipients env (chat_ids_setting (sub_cfg acfg ''telegram'')) = [])
     \<and> (listed acfg ''discord'' \<longrightarrow>
        credential env (sub_cfg acfg ''discord'') ''webhook_env'' ''RUST_WD_DISCORD_WEBHOOK'' = [])"
  by (auto simp: channels_def telegram_channel_def discord_channel_def Let_def)

lemma init_config_ok:
  assumes "config_ok env config"
  shows "init env config max_q lf stored =
     Inr (\<lparr>cfg = alerts_section config,
           enabled = (truthy (setting (alerts_section config) ''enabled'' (VBool False))
                      \<and> channels env (alerts_section config) \<noteq> []),
           cooldown_default = int_val env (setting (alerts_section config) ''cooldown_seconds_default'' (VInt 900)),
           cooldowns = py_or (setting (alerts_section config) ''cooldowns'' (VDict [])) (VDict []),
           dedupe_seconds = int_val env (setting (alerts_section config) ''dedupe_seconds'' (VInt 300)),
           include_host = truthy (setting (alerts_section config) ''include_host'' (VBool True)),
           include_identity = truthy (setting (alerts_section config) ''include_identity'' (VBool True)),
           max_queue = max_q, q = [], state = load_state stored,
           backends = (if truthy (setting (alerts_section config) ''enabled'' (VBool False))
                       then channels env (alerts_section config) else []),
           log_fn = lf\<rparr>,
          if truthy (setting (alerts_section config) ''enabled'' (VBool False))
             \<and> channels env (alerts_section config) = [] \<and> lf \<noteq> None
          then [(''WARN'', ''ALERTS: enabled, but no usable backends configured -> alerts disabled'')]
          else [])"
proof -
  let ?acfg = "alerts_section config"
  let ?en = "truthy (setting ?acfg ''enabled'' (VBool False))"
  from assms have d: "is_dict ?acfg"
    and c: "int_like env (setting ?acfg ''cooldown_seconds_default'' (VInt 900))"
    and dd: "int_like env (setting ?acfg ''dedupe_seconds'' (VInt 300))"
    and b: "?en \<Longrightarrow> iterable (backends_setting ?acfg)"
      "?en \<Longrightarrow> listed ?acfg ''telegram'' \<Longrightarrow> telegram_ok env ?acfg"
      "?en \<Longrightarrow> listed ?acfg ''discord'' \<Longrightarrow> discord_ok env ?acfg"
    by (simp_all add: config_ok_def Let_def)
  have dg: "\<And>k dflt. dict_get ?acfg k dflt = Inr (setting ?acfg k dflt)"
    using d by (rule dict_get_setting)
  note cd = int_like_val [OF c]
  note dv = int_like_val [OF dd]
  define m where "m = \<lparr>cfg = ?acfg, enabled = ?en,
                 cooldown_default = int_val env (setting ?acfg ''cooldown_seconds_default'' (VInt 900)),
                 cooldowns = py_or (setting ?acfg ''cooldowns'' (VDict [])) (VDict []),
                 dedupe_seconds = int_val env (setting ?acfg ''dedupe_seconds'' (VInt 300)),
                 include_host = truthy (setting ?acfg ''include_host'' (VBool True)),
                 include_identity = truthy (setting ?acfg ''include_identity'' (VBool True)),
                 max_queue = max_q, q = [], state = load_state stored, backends = [],
                 log_fn = lf\<rparr>"
  have i: "init env config max_q lf stored = (if enabled m then init_backends env m [] else Inr (m, []))"
    unfolding init_def m_def
    by (simp only: Let_def dg bind_Inr cd dv)
  show ?thesis
  proof (cases ?en)
    case False
    then have "init env config max_q lf stored = Inr (m, [])"
      by (simp add: i m_def)
    with False show ?thesis
      by (simp add: m_def)
  next
    case True
    have cm: "cfg m = ?acfg" "backends m = []" "enabled m" "log_fn m = lf"
      using True by (simp_all add: m_def)
    have "init_backends env m [] =
           Inr (m\<lparr>backends := channels env (cfg m), enabled := enabled m \<and> channels env (cfg m) \<noteq> []\<rparr>,
                if channels env (cfg m) = [] then log_msg m ''WARN''
                   ''ALERTS: enabled, but no usable backends configured -> alerts disabled'' []
                else [])"
      using d b True by (intro init_backends_channels) (simp_all add: cm)
    then have "init env config max_q lf stored =
           Inr (m\<lparr>backends := channels env ?acfg, enabled := channels env ?acfg \<noteq> []\<rparr>,
                if channels env ?acfg = [] then log_msg m ''WARN''
                   ''ALERTS: enabled, but no usable backends configured -> alerts disabled'' []
                else [])"
      by (simp add: i cm)
    with True show ?thesis
      by (auto simp: m_def log_msg_def split: option.splits)
  qed
qed

lemma env1_simps [simp]:
  "int_of_str env1 = (\<lambda>s. if s = ''12'' then Some 12 else if s = ''34'' then Some 34 else None)"
  "getenv env1 = (\<lambda>n. if n = ''RUST_WD_TELEGRAM_TOKEN'' then Some ''T'' else None)"
  by (simp_all add: env1_def)

lemma strip_examples: "strip '' Telegram '' = ''Telegram''" "strip ''12'' = ''12''" "strip '' 34'' = ''34''"
  by (simp_all add: strip_def is_space_def)

lemma lower_telegram: "lower ''Telegram'' = ''telegram''"
  by code_simp

lemma alerts_section_tg: "alerts_section cfg_tg = alerts_tg"
  by (simp add: cfg_tg_def alerts_section_def)

lemma setting_tg:
  "setting alerts_tg k d =
     (if k = ''enabled'' then VBool True
      else if k = ''backends'' then VList [VStr '' Telegram '', VInt 3]
      else if k = ''telegram'' then VDict [(''chat_id'', VStr ''12, 34'')]
      else d)"
  by (simp add: alerts_tg_def setting_def)

lemma listed_tg: "listed alerts_tg ''telegram''" "\<not> listed alerts_tg ''discord''"
  by (simp_all add: listed_def backends_setting_def setting_tg py_or_def strip_examples lower_telegram)

lemma sub_cfg_tg: "sub_cfg alerts_tg ''telegram'' = VDict [(''chat_id'', VStr ''12, 34'')]"
  by (simp add: sub_cfg_def setting_tg py_or_def)

lemma recipients_tg: "recipients env1 (VStr ''12, 34'') = [12, 34]" "recipients env_bare (VStr ''12, 34'') = [12, 34]"
  by (simp_all add: recipients_def pieces_def strip_examples int_val_def env_bare_def)

lemma chat_ids_ok_tg: "chat_ids_ok env1 (VStr ''12, 34'')" "chat_ids_ok env_bare (VStr ''12, 34'')"
  by (simp_all add: chat_ids_ok_def pieces_def strip_examples env_bare_def)

lemma channels_tg:
  "channels env1 alerts_tg = [TelegramBackend ''T'' [12, 34] (VStr ''HTML'') True 8]"
  "channels env_bare alerts_tg = []"
  by (simp_all add: channels_def telegram_channel_def discord_channel_def Let_def listed_tg sub_cfg_tg
      credential_def setting_def chat_ids_setting_def py_or_def recipients_tg int_val_def env_bare_def)

lemma telegram_ok_tg: "telegram_ok env1 alerts_tg" "telegram_ok env_bare alerts_tg"
  by (simp_all add: telegram_ok_def Let_def sub_cfg_tg is_dict_def is_str_def setting_def
      chat_ids_setting_def py_or_def chat_ids_ok_tg int_like_def)

lemma config_ok_tg: "config_ok env1 cfg_tg" "config_ok env_bare cfg_tg"
  by (simp_all add: config_ok_def alerts_section_tg Let_def setting_tg int_like_def listed_tg
      iterable_def backends_setting_def py_or_def telegram_ok_tg)
     (simp_all add: is_dict_def alerts_tg_def)

text \<open>
  C9, as the code has it. For a configuration as described above the constructor
  returns, and the manager it returns is determined by the configuration and the
  environment: its channels are those of the configuration when the configuration
  enables the manager, and none otherwise; it is enabled exactly when the configuration
  enables it and it has a channel; when the configuration enables it and it has no
  channel, the logging callback (if there is one) is called once with a warning, and
  otherwise not at all. It has no channel exactly when every listed channel lacks its
  credential (the variable its section names is unset or empty) or, for Telegram, a
  recipient. Recipients given as one integer, as a string that \<^verbatim>\<open>int()\<close> accepts, as a
  string of such parts separated by commas, or as a list become the list of their
  integers.
\<close>

theorem init_total:
  assumes "config_ok env config"
  shows "init env config max_q lf stored =
     Inr (\<lparr>cfg = alerts_section config,
           enabled = (truthy (setting (alerts_section config) ''enabled'' (VBool False))
                      \<and> channels env (alerts_section config) \<noteq> []),
           cooldown_default = int_val env (setting (alerts_section config) ''cooldown_seconds_default'' (VInt 900)),
           cooldowns = py_or (setting (alerts_section config) ''cooldowns'' (VDict [])) (VDict []),
           dedupe_seconds = int_val env (setting (alerts_section config) ''dedupe_seconds'' (VInt 300)),
           include_host = truthy (setting (alerts_section config) ''include_host'' (VBool True)),
           include_identity = truthy (setting (alerts_section config) ''include_identity'' (VBool True)),
           max_queue = max_q, q = [], state = load_state stored,
           backends = (if truthy (setting (alerts_section config) ''enabled'' (VBool False))
                       then channels env (alerts_section config) else []),
           log_fn = lf\<rparr>,
          if truthy (setting (alerts_section config) ''enabled'' (VBool False))
             \<and> channels env (alerts_section config) = [] \<and> lf \<noteq> None
          then [(''WARN'', ''ALERTS: enabled, but no usable backends configured -> alerts disabled'')]
          else [])
     \<and> (channels env (alerts_section config) = [] \<longleftrightarrow>
           (listed (alerts_section config) ''telegram'' \<longrightarrow>
              credential env (sub_cfg (alerts_section config) ''telegram'') ''token_env'' ''RUST_WD_TELEGRAM_TOKEN'' = []
              \<or> recipients env (chat_ids_setting (sub_cfg (alerts_section config) ''telegram'')) = [])
           \<and> (listed (alerts_section config) ''discord'' \<longrightarrow>
              credential env (sub_cfg (alerts_section config) ''discord'') ''webhook_env'' ''RUST_WD_DISCORD_WEBHOOK'' = []))
     \<and> (chat_ids_ok env v \<longrightarrow> parse_chat_ids env v = Inr (recipients env v))"
  using init_config_ok [OF assms, of max_q lf stored] channels_empty [of env "alerts_section config"]
    parse_chat_ids_recipients [of env v]
  by blast

theorem init_total_witness:
  "config_ok env1 cfg_tg
   \<and> init env1 cfg_tg 200 None (Inr None) = Inr (m_tg, [])
   \<and> parse_chat_ids env1 (VStr ''12, 34'') = Inr [12, 34]
   \<and> config_ok env_bare cfg_tg
   \<and> init env_bare cfg_tg 200 (Some (\<lambda>l s. Some ValueError)) (Inr None) =
       Inr (m_tg\<lparr>enabled := False, backends := [], log_fn := Some (\<lambda>l s. Some ValueError)\<rparr>,
            [(''WARN'', ''ALERTS: enabled, but no usable backends configured -> alerts disabled'')])"
proof -
  have i: "int_val env1 (VInt n) = n" "int_val env_bare (VInt n) = n" for n
    by (simp_all add: int_val_def)
  from init_total [OF config_ok_tg(1), of 200 None "Inr None" "VStr ''12, 34''"]
  have "init env1 cfg_tg 200 None (Inr None) = Inr (m_tg, [])"
    and "parse_chat_ids env1 (VStr ''12, 34'') = Inr [12, 34]"
    by (simp_all add: alerts_section_tg setting_tg channels_tg i py_or_def load_state_def m_tg_def
        chat_ids_ok_tg recipients_tg)
  moreover from init_total [OF config_ok_tg(2), of 200 "Some (\<lambda>l s. Some ValueError)" "Inr None"]
  have "init env_bare cfg_tg 200 (Some (\<lambda>l s. Some ValueError)) (Inr None) =
       Inr (m_tg\<lparr>enabled := False, backends := [], log_fn := Some (\<lambda>l s. Some ValueError)\<rparr>,
            [(''WARN'', ''ALERTS: enabled, but no usable backends configured -> alerts disabled'')])"
    by (simp add: alerts_section_tg setting_tg channels_tg i py_or_def load_state_def m_tg_def)
  ultimately show ?thesis
    using config_ok_tg by simp
qed

text \<open>
  C9 as stated fails: the constructor raises on a configuration whose
  \<^verbatim>\<open>cooldown_seconds_default\<close> is \<^verbatim>\<open>null\<close> (\<^verbatim>\<open>int(None)\<close>), and on one whose \<^verbatim>\<open>alerts\<close>
  section is \<^verbatim>\<open>null\<close> (\<^verbatim>\<open>None.get\<close>).
\<close>

theorem init_raises_counterexample:
  "init env0 (VDict [(''alerts'', VDict [(''cooldown_seconds_default'', VNone)])]) 200 None (Inr None)
     = Inl TypeError
   \<and> init env0 (VDict [(''alerts'', VNone)]) 200 None (Inr None) = Inl AttributeError"
  by (simp add: init_def alerts_section_def Let_def bind_def)

end
